theory Spec2Isabelle
  imports Main "HOL-Library.Sublist" "HOL-Library.Multiset"
begin

section \<open>Formatting helpers (fmt verbs used by main.go)\<close>

text \<open>
  The verb \<open>%d\<close> of \<open>fmt.Sprintf\<close>/\<open>fmt.Errorf\<close> on an \<open>int\<close>: decimal digits, most
  significant first, with a leading minus sign for a negative number.
\<close>

fun digits_of_nat :: "nat \<Rightarrow> string" where
  "digits_of_nat n =
     (if n < 10 then [char_of (48 + n)]
      else digits_of_nat (n div 10) @ [char_of (48 + n mod 10)])"

declare digits_of_nat.simps [simp del]

definition fmt_d :: "int \<Rightarrow> string" where
  "fmt_d i = (if i < 0 then CHR ''-'' # digits_of_nat (nat (- i)) else digits_of_nat (nat i))"

section \<open>transferRepo\<close>

text \<open>
  What \<open>client.R()...Post(transferURL)\<close> hands back to \<open>transferRepo\<close>: either a client
  error (\<open>err != nil\<close>, carrying the text of the error), or a response with its status code
  (\<open>res.StatusCode()\<close>) and its body (\<open>res.String()\<close>).
\<close>

datatype response = ClientError string | Delivered int string

text \<open>
  Lines 76-110 of main.go. The Go \<open>error\<close> result is modelled by its message
  (\<open>err.Error()\<close>): \<open>None\<close> is \<open>nil\<close>. The switch keeps the order of the source.
\<close>

definition transferRepo_result :: "string \<Rightarrow> response \<Rightarrow> string option" where
  "transferRepo_result repoName r =
     (case r of
        ClientError e \<Rightarrow> Some (''client request for repo '' @ repoName @ '' failed: '' @ e)
      | Delivered code body \<Rightarrow>
          if code = 202 then None
          else if code = 401 then
            Some (''repo '' @ repoName @ '': Unauthorized (HTTP '' @ fmt_d code
                  @ ''). Check GitHub token and permissions. Response: '' @ body)
          else if code = 403 then
            Some (''repo '' @ repoName @ '': Forbidden (HTTP '' @ fmt_d code
                  @ ''). API rate limits or insufficient permissions. Response: '' @ body)
          else if code = 404 then
            Some (''repo '' @ repoName @ '': Repository or user not found (HTTP '' @ fmt_d code
                  @ ''). Response: '' @ body)
          else if code = 422 then
            Some (''repo '' @ repoName @ '': Unprocessable Entity (HTTP '' @ fmt_d code
                  @ ''). Semantic errors. Response: '' @ body)
          else
            Some (''repo '' @ repoName @ '': Unexpected status code (HTTP '' @ fmt_d code
                  @ ''). Response: '' @ body))"

text \<open>
  The request that lines 66-74 of main.go assemble before \<open>Post\<close>: the body is a Go
  \<open>map[string]string\<close>, the headers are those set by \<open>SetHeader\<close> (which replaces the
  value stored under a name).
\<close>

record request =
  req_method :: string
  req_url :: string
  req_body :: "string \<rightharpoonup> string"
  req_headers :: "string \<rightharpoonup> string"

definition transfer_request :: "string \<Rightarrow> string \<Rightarrow> string \<Rightarrow> string \<Rightarrow> request" where
  "transfer_request transferURL newUser repoName githubToken =
     \<lparr> req_method = ''POST'',
       req_url = transferURL,
       req_body = [''new_owner'' \<mapsto> newUser, ''new_name'' \<mapsto> repoName],
       req_headers = [''Accept'' \<mapsto> ''application/vnd.github+json'',
                      ''Authorization'' \<mapsto> ''Bearer '' @ githubToken,
                      ''X-GitHub-Api-Version'' \<mapsto> ''2022-11-28''] \<rparr>"

text \<open>
  Modelled from the spec: the HTTP client library behind \<open>client.R()\<close> (resty) is not part
  of the sources. Section 4.1 of the specification says that the POST carries a JSON body
  and the header \<open>Content-Type: application/json\<close>; \<open>transferRepo\<close> sets no content type
  itself and passes a map as body, so the header is the one the client adds for such a body
  when none was set.
\<close>

definition client_wire :: "request \<Rightarrow> request" where
  "client_wire rq =
     (if req_headers rq ''Content-Type'' = None
      then rq\<lparr> req_headers := (req_headers rq)(''Content-Type'' \<mapsto> ''application/json'') \<rparr>
      else rq)"

text \<open>
  Modelled from the spec: \<open>Post\<close> of the same client library, as \<open>transferRepo\<close> sees it.
  Section 4.1 of the specification makes it one logical POST (its retries are inside it and
  transparent to the caller). The state of the client is the state of the remote side
  together with the requests put on the wire so far. The remote side is \<open>srv\<close>: from its
  state and the request on the wire, its response and next state, or \<open>None\<close> when it never
  answers. main.go sets no timeout on the client (lines 142-146), so the call then never
  returns.
\<close>

definition client_post ::
  "('w \<Rightarrow> request \<Rightarrow> (response \<times> 'w) option) \<Rightarrow> request \<Rightarrow> 'w \<times> request list
     \<Rightarrow> (response \<times> 'w \<times> request list) option" where
  "client_post srv rq c =
     (case srv (fst c) (client_wire rq) of
        None \<Rightarrow> None
      | Some (res, w') \<Rightarrow> Some (res, w', snd c @ [client_wire rq]))"

text \<open>
  \<open>transferRepo\<close> itself (lines 59-111): one \<open>Post\<close> through the client, then the
  classification of what came back. The client is the parameter \<open>post\<close>, with its state
  \<open>c\<close> passed through; \<open>None\<close> is a call that never returns, because \<open>Post\<close> never does.
\<close>

definition transferRepo ::
  "(request \<Rightarrow> 'c \<Rightarrow> (response \<times> 'c) option) \<Rightarrow> string \<Rightarrow> string \<Rightarrow> string \<Rightarrow> string \<Rightarrow> 'c
     \<Rightarrow> (string option \<times> 'c) option" where
  "transferRepo post transferURL newUser repoName githubToken c =
     (case post (transfer_request transferURL newUser repoName githubToken) c of
        None \<Rightarrow> None
      | Some (res, c') \<Rightarrow> Some (transferRepo_result repoName res, c'))"

section \<open>Configuration\<close>

record Config =
  OriginalUser :: string
  NewUser :: string
  Repositories :: "string list"

text \<open>
  \<open>loadConfig\<close> (lines 34-55). \<open>os.ReadFile\<close> and \<open>json.Unmarshal\<close> are the parameters
  \<open>readFile\<close> and \<open>unmarshal\<close>; each gives \<open>Inl\<close> of the error text or \<open>Inr\<close> of its
  result. \<open>Inl\<close> of the result is the \<open>(nil, err)\<close> return, \<open>Inr\<close> is \<open>(&config, nil)\<close>.
\<close>

definition loadConfig ::
  "(string \<Rightarrow> string + string) \<Rightarrow> (string \<Rightarrow> string + Config) \<Rightarrow> string \<Rightarrow> string + Config" where
  "loadConfig readFile unmarshal filePath =
     (case readFile filePath of
        Inl err \<Rightarrow> Inl (''failed to read config file '' @ filePath @ '': '' @ err)
      | Inr data \<Rightarrow>
          (case unmarshal data of
             Inl err \<Rightarrow> Inl (''failed to unmarshal config data from '' @ filePath @ '': '' @ err)
           | Inr config \<Rightarrow>
               if OriginalUser config = [] \<or> NewUser config = [] then
                 Inl ''originalUser and newUser must be specified in config''
               else if length (Repositories config) = 0 then
                 Inl ''repositories list cannot be empty in config''
               else Inr config))"

section \<open>The result messages and their tally\<close>

text \<open>
  The two \<open>fmt.Sprintf\<close> calls of the worker (lines 168-174): \<open>err\<close> is the result of
  \<open>transferRepo\<close>, printed with \<open>%v\<close> (its message).
\<close>

definition result_msg :: "nat \<Rightarrow> string \<Rightarrow> string option \<Rightarrow> string" where
  "result_msg workerID repoName err =
     (case err of
        Some e \<Rightarrow> ''[FAIL] Worker '' @ fmt_d (int workerID) @ '', Repo '' @ repoName @ '': '' @ e
      | None \<Rightarrow> ''[SUCCESS] Worker '' @ fmt_d (int workerID) @ '', Repo '' @ repoName
                 @ '': Transfer successful'')"

text \<open>
  \<open>fmt.Sscanf(resMsg, "[SUCCESS]%s", new(string))\<close> (line 197), over the bytes of the
  message. The literal part of the format must match the input byte for byte. The verb
  \<open>%s\<close> then skips white space, fails on a newline (\<open>Sscanf\<close> does not treat a newline as
  space) and at the end of the input, and otherwise reads the next word. White space is
  what the scanner's table lists: the ASCII characters 9 to 13 and 32, and the code points
  U+0085, U+00A0, U+1680, U+2000 to U+200A, U+2028, U+2029, U+202F, U+205F and U+3000,
  here in their UTF-8 encoding. A carriage return is skipped whether or not a newline
  follows it, and the newline after it fails.
\<close>

fun match_literal :: "string \<Rightarrow> string \<Rightarrow> string option" where
  "match_literal [] inp = Some inp"
| "match_literal (f # fs) [] = None"
| "match_literal (f # fs) (c # cs) = (if f = c then match_literal fs cs else None)"

fun wide_space :: "string \<Rightarrow> nat" where
  "wide_space (a # b # cs) =
     (if a = CHR 0xC2 \<and> (b = CHR 0x85 \<or> b = CHR 0xA0) then 2
      else (case cs of
              [] \<Rightarrow> 0
            | c # _ \<Rightarrow>
                if a = CHR 0xE1 \<and> b = CHR 0x9A \<and> c = CHR 0x80 then 3
                else if a = CHR 0xE2 \<and> b = CHR 0x80
                        \<and> (c \<in> {CHR 0x80, CHR 0x81, CHR 0x82, CHR 0x83, CHR 0x84, CHR 0x85,
                                  CHR 0x86, CHR 0x87, CHR 0x88, CHR 0x89, CHR 0x8A,
                                  CHR 0xA8, CHR 0xA9, CHR 0xAF}) then 3
                else if a = CHR 0xE2 \<and> b = CHR 0x81 \<and> c = CHR 0x9F then 3
                else if a = CHR 0xE3 \<and> b = CHR 0x80 \<and> c = CHR 0x80 then 3
                else 0))"
| "wide_space _ = 0"

fun skipSpace :: "string \<Rightarrow> string option" where
  "skipSpace [] = Some []"
| "skipSpace (c # cs) =
     (if c = CHR 0x0A then None
      else if c \<in> {CHR 0x09, CHR 0x0B, CHR 0x0C, CHR 0x0D, CHR 0x20} then skipSpace cs
      else if wide_space (c # cs) = 2 then skipSpace (drop 1 cs)
      else if wide_space (c # cs) = 3 then skipSpace (drop 2 cs)
      else Some (c # cs))"

definition sscanf_success :: "string \<Rightarrow> bool" where
  "sscanf_success resMsg =
     (case match_literal ''[SUCCESS]'' resMsg of
        None \<Rightarrow> False
      | Some rest \<Rightarrow>
          (case skipSpace rest of
             None \<Rightarrow> False
           | Some [] \<Rightarrow> False
           | Some (c # cs) \<Rightarrow> True))"

text \<open>
  The summary loop of main (lines 192-202): the pair is
  \<open>(successCount, failureCount)\<close>.
\<close>

definition tally_step :: "nat \<times> nat \<Rightarrow> string \<Rightarrow> nat \<times> nat" where
  "tally_step c resMsg =
     (if sscanf_success resMsg then (fst c + 1, snd c) else (fst c, snd c + 1))"

definition main_tally :: "string list \<Rightarrow> nat \<times> nat" where
  "main_tally results = foldl tally_step (0, 0) results"

section \<open>The worker pool of main\<close>

text \<open>
  Where a worker goroutine (lines 157-177) stands: blocked on \<open>range jobs\<close>; holding a
  \<open>repoName\<close> and about to call \<open>transferRepo\<close>; holding \<open>repoName\<close> and \<open>err\<close> and about
  to send on \<open>results\<close>; or returned (\<open>wg.Done()\<close> has run).
\<close>

datatype wstate = WaitJob | Posting string | Publishing string "string option" | Returned

text \<open>
  The state shared by main and its workers after line 152: the repositories that the loop
  of line 181 has not sent yet, the buffer of the channel \<open>jobs\<close> and whether it is closed,
  the workers (worker \<open>i\<close> of the list has \<open>workerID = i + 1\<close>), the buffer of the channel
  \<open>results\<close>, and the state of the client: the state of the remote side and the requests
  put on the wire so far.
\<close>

record 'w pool =
  pending :: "string list"
  jobs :: "string list"
  jobs_closed :: bool
  workers :: "wstate list"
  results :: "string list"
  world :: 'w
  calls :: "request list"

definition api_url :: "string \<Rightarrow> string \<Rightarrow> string" where
  "api_url oUser repoName = ''https://api.github.com/repos/'' @ oUser @ ''/'' @ repoName @ ''/transfer''"

definition job_request :: "Config \<Rightarrow> string \<Rightarrow> string \<Rightarrow> request" where
  "job_request cfg githubToken repoName =
     transfer_request (api_url (OriginalUser cfg) repoName) (NewUser cfg) repoName githubToken"

definition init_pool :: "string list \<Rightarrow> nat \<Rightarrow> 'w \<Rightarrow> 'w pool" where
  "init_pool allRepos numWorkers w0 =
     \<lparr> pending = allRepos, jobs = [], jobs_closed = False,
       workers = replicate numWorkers WaitJob, results = [], world = w0, calls = [] \<rparr>"

text \<open>
  One atomic action of main or of a worker. Both channels have capacity
  \<open>len(allRepos)\<close>, and a send waits while its buffer is full. The remote side is the
  parameter \<open>srv\<close>. The action \<open>post\<close> is the whole call of \<open>transferRepo\<close> by worker \<open>i\<close>
  (lines 166-167) on the shared client; it happens only if that call returns, and the
  state of the client is then what the call left.
\<close>

inductive step ::
  "('w \<Rightarrow> request \<Rightarrow> (response \<times> 'w) option) \<Rightarrow> Config \<Rightarrow> string \<Rightarrow> 'w pool \<Rightarrow> 'w pool \<Rightarrow> bool"
  for srv :: "'w \<Rightarrow> request \<Rightarrow> (response \<times> 'w) option" and cfg :: Config and githubToken :: string
where
  enqueue:
    "pending s = r # rs \<Longrightarrow> length (jobs s) < length (Repositories cfg) \<Longrightarrow>
     step srv cfg githubToken s (s\<lparr> pending := rs, jobs := jobs s @ [r] \<rparr>)"
| close_jobs:
    "pending s = [] \<Longrightarrow> \<not> jobs_closed s \<Longrightarrow>
     step srv cfg githubToken s (s\<lparr> jobs_closed := True \<rparr>)"
| dequeue:
    "i < length (workers s) \<Longrightarrow> workers s ! i = WaitJob \<Longrightarrow> jobs s = r # rs \<Longrightarrow>
     step srv cfg githubToken s (s\<lparr> jobs := rs, workers := (workers s)[i := Posting r] \<rparr>)"
| post:
    "i < length (workers s) \<Longrightarrow> workers s ! i = Posting r \<Longrightarrow>
     transferRepo (client_post srv) (api_url (OriginalUser cfg) r) (NewUser cfg) r githubToken
       (world s, calls s) = Some (err, w', cs') \<Longrightarrow>
     step srv cfg githubToken s
       (s\<lparr> workers := (workers s)[i := Publishing r err], world := w', calls := cs' \<rparr>)"
| publish:
    "i < length (workers s) \<Longrightarrow> workers s ! i = Publishing r err \<Longrightarrow>
     length (results s) < length (Repositories cfg) \<Longrightarrow>
     step srv cfg githubToken s
       (s\<lparr> workers := (workers s)[i := WaitJob],
           results := results s @ [result_msg (i + 1) r err] \<rparr>)"
| worker_return:
    "i < length (workers s) \<Longrightarrow> workers s ! i = WaitJob \<Longrightarrow> jobs s = [] \<Longrightarrow> jobs_closed s \<Longrightarrow>
     step srv cfg githubToken s (s\<lparr> workers := (workers s)[i := Returned] \<rparr>)"

text \<open>
  \<open>wg.Wait()\<close> (line 187) returns once main has closed \<open>jobs\<close> and every worker has
  returned; main then reads \<open>results\<close> to its end.
\<close>

definition pool_done :: "'w pool \<Rightarrow> bool" where
  "pool_done s = (pending s = [] \<and> jobs_closed s \<and> list_all (\<lambda>w. w = Returned) (workers s))"

definition reachable ::
  "('w \<Rightarrow> request \<Rightarrow> (response \<times> 'w) option) \<Rightarrow> Config \<Rightarrow> string \<Rightarrow> nat \<Rightarrow> 'w \<Rightarrow> 'w pool \<Rightarrow> bool" where
  "reachable srv cfg githubToken numWorkers w0 s =
     (step srv cfg githubToken)\<^sup>*\<^sup>* (init_pool (Repositories cfg) numWorkers w0) s"

text \<open>A remote side that answers every request.\<close>

definition answering ::
  "('w \<Rightarrow> request \<Rightarrow> response \<times> 'w) \<Rightarrow> 'w \<Rightarrow> request \<Rightarrow> (response \<times> 'w) option" where
  "answering srv w rq = Some (srv w rq)"

text \<open>
  The same actions as a function: what action \<open>a\<close> makes of state \<open>s\<close>, or \<open>None\<close> when
  \<open>a\<close> cannot happen in \<open>s\<close>. A schedule is a list of actions.
\<close>

datatype action = Enqueue | CloseJobs | Dequeue nat | Post nat | Publish nat | WorkerReturn nat

definition exec ::
  "('w \<Rightarrow> request \<Rightarrow> (response \<times> 'w) option) \<Rightarrow> Config \<Rightarrow> string \<Rightarrow> action \<Rightarrow> 'w pool
     \<Rightarrow> 'w pool option" where
  "exec srv cfg githubToken a s =
     (case a of
        Enqueue \<Rightarrow>
          (case pending s of
             [] \<Rightarrow> None
           | r # rs \<Rightarrow>
               if length (jobs s) < length (Repositories cfg)
               then Some (s\<lparr> pending := rs, jobs := jobs s @ [r] \<rparr>) else None)
      | CloseJobs \<Rightarrow>
          if pending s = [] \<and> \<not> jobs_closed s then Some (s\<lparr> jobs_closed := True \<rparr>) else None
      | Dequeue i \<Rightarrow>
          if i < length (workers s) \<and> workers s ! i = WaitJob then
            (case jobs s of
               [] \<Rightarrow> None
             | r # rs \<Rightarrow> Some (s\<lparr> jobs := rs, workers := (workers s)[i := Posting r] \<rparr>))
          else None
      | Post i \<Rightarrow>
          if i < length (workers s) then
            (case workers s ! i of
               Posting r \<Rightarrow>
                 (case transferRepo (client_post srv) (api_url (OriginalUser cfg) r) (NewUser cfg) r
                         githubToken (world s, calls s) of
                    None \<Rightarrow> None
                  | Some (err, w', cs') \<Rightarrow>
                      Some (s\<lparr> workers := (workers s)[i := Publishing r err],
                               world := w', calls := cs' \<rparr>))
             | _ \<Rightarrow> None)
          else None
      | Publish i \<Rightarrow>
          if i < length (workers s) then
            (case workers s ! i of
               Publishing r err \<Rightarrow>
                 if length (results s) < length (Repositories cfg)
                 then Some (s\<lparr> workers := (workers s)[i := WaitJob],
                              results := results s @ [result_msg (i + 1) r err] \<rparr>)
                 else None
             | _ \<Rightarrow> None)
          else None
      | WorkerReturn i \<Rightarrow>
          if i < length (workers s) \<and> workers s ! i = WaitJob \<and> jobs s = [] \<and> jobs_closed s
          then Some (s\<lparr> workers := (workers s)[i := Returned] \<rparr>) else None)"

fun run_schedule ::
  "('w \<Rightarrow> request \<Rightarrow> (response \<times> 'w) option) \<Rightarrow> Config \<Rightarrow> string \<Rightarrow> action list \<Rightarrow> 'w pool
     \<Rightarrow> 'w pool option" where
  "run_schedule srv cfg githubToken [] s = Some s"
| "run_schedule srv cfg githubToken (a # as) s =
     (case exec srv cfg githubToken a s of
        None \<Rightarrow> None
      | Some s' \<Rightarrow> run_schedule srv cfg githubToken as s')"

section \<open>main\<close>

text \<open>
  What main reads from outside: the error of \<open>godotenv.Load()\<close> if any, the value of
  \<open>GITHUB_TOKEN_CLASSIC\<close>, the file system and the JSON decoder behind \<open>loadConfig\<close>, and a
  remote side that answers, with its initial state.
\<close>

record 'w environment =
  dotenv_error :: "string option"
  env_token :: string
  env_readFile :: "string \<Rightarrow> string + string"
  env_unmarshal :: "string \<Rightarrow> string + Config"
  env_server :: "'w \<Rightarrow> request \<Rightarrow> response \<times> 'w"
  env_world :: 'w

definition numWorkers :: nat where
  "numWorkers = 5"

text \<open>
  Lines 113-140: the ways main ends before any worker starts (\<open>log.Fatal\<close>, or the return
  of line 138), or the configuration and token it goes on with.
\<close>

datatype startup = Fatal string | NoRepositories | Proceed Config string

definition main_startup :: "'w environment \<Rightarrow> startup" where
  "main_startup env =
     (case dotenv_error env of
        Some err \<Rightarrow> Fatal (''Fatal error: Failed to load .env file: '' @ err)
      | None \<Rightarrow>
          if env_token env = [] then
            Fatal ''Fatal error: GITHUB_TOKEN_CLASSIC environment variable is not set.''
          else
            (case loadConfig (env_readFile env) (env_unmarshal env) ''config.json'' of
               Inl err \<Rightarrow> Fatal (''Fatal error: Failed to load configuration from config.json: '' @ err)
             | Inr appConfig \<Rightarrow>
                 if length (Repositories appConfig) = 0 then NoRepositories
                 else Proceed appConfig (env_token env)))"

text \<open>
  A whole run of main: how it ended and the requests it posted. \<open>Summary t s f\<close> is the
  last log line (total, successes, failures).
\<close>

datatype ending = Aborted string | ReturnedEarly | Summary nat nat nat

inductive main_run :: "'w environment \<Rightarrow> ending \<Rightarrow> request list \<Rightarrow> bool"
  for env :: "'w environment"
where
  run_fatal:
    "main_startup env = Fatal m \<Longrightarrow> main_run env (Aborted m) []"
| run_no_repos:
    "main_startup env = NoRepositories \<Longrightarrow> main_run env ReturnedEarly []"
| run_pool:
    "main_startup env = Proceed cfg tok \<Longrightarrow>
     reachable (answering (env_server env)) cfg tok numWorkers (env_world env) s \<Longrightarrow>
     pool_done s \<Longrightarrow>
     main_run env
       (Summary (length (Repositories cfg)) (fst (main_tally (results s))) (snd (main_tally (results s))))
       (calls s)"

section \<open>Bookkeeping over the pool\<close>

text \<open>The request of a repository as the client puts it on the wire.\<close>

definition wire_request :: "Config \<Rightarrow> string \<Rightarrow> string \<Rightarrow> request" where
  "wire_request cfg githubToken repoName = client_wire (job_request cfg githubToken repoName)"

text \<open>
  The repository a worker holds, and the repository whose request it has already posted.
\<close>

fun wjob :: "wstate \<Rightarrow> string list" where
  "wjob (Posting r) = [r]"
| "wjob (Publishing r err) = [r]"
| "wjob _ = []"

fun wposted :: "wstate \<Rightarrow> (string \<times> string option) list" where
  "wposted (Publishing r err) = [(r, err)]"
| "wposted _ = []"

definition in_flight :: "wstate list \<Rightarrow> string list" where
  "in_flight ws = concat (map wjob ws)"

definition unpublished :: "wstate list \<Rightarrow> (string \<times> string option) list" where
  "unpublished ws = concat (map wposted ws)"

text \<open>
  An outcome is the triple a worker formats into its message: its \<open>workerID\<close>, the
  \<open>repoName\<close> and the result of \<open>transferRepo\<close>.
\<close>

type_synonym outcome = "nat \<times> string \<times> string option"

definition outcome_msg :: "outcome \<Rightarrow> string" where
  "outcome_msg oc = (case oc of (i, r, err) \<Rightarrow> result_msg i r err)"

text \<open>The number of atomic actions a state still allows, at most.\<close>

fun wweight :: "wstate \<Rightarrow> nat" where
  "wweight WaitJob = 1"
| "wweight (Posting r) = 3"
| "wweight (Publishing r err) = 2"
| "wweight Returned = 0"

definition pool_measure :: "'w pool \<Rightarrow> nat" where
  "pool_measure s =
     4 * length (pending s) + 3 * length (jobs s) + sum_list (map wweight (workers s))
     + (if jobs_closed s then 0 else 1)"

text \<open>
  What holds in every state of a run, with \<open>os\<close> the outcomes published so far: the
  channel \<open>results\<close> holds their messages; every repository of the configuration is in
  exactly one place (not yet sent, queued, held by a worker, or published); the requests
  on the wire are those of the repositories held after a post or published; every worker is
  still there; once \<open>jobs\<close> is closed nothing is left to send; a worker has returned only
  after \<open>jobs\<close> was closed and empty; every result of \<open>transferRepo\<close> held or
  published satisfies \<open>P\<close>, a property of all results the remote side can cause.
\<close>

definition pool_inv ::
  "(string \<times> string option \<Rightarrow> bool) \<Rightarrow> Config \<Rightarrow> string \<Rightarrow> nat \<Rightarrow> 'w pool \<Rightarrow> outcome list \<Rightarrow> bool" where
  "pool_inv P cfg githubToken n s os =
     (results s = map outcome_msg os \<and>
      mset (pending s) + mset (jobs s) + mset (in_flight (workers s)) + mset (map (fst \<circ> snd) os)
        = mset (Repositories cfg) \<and>
      mset (calls s)
        = image_mset (wire_request cfg githubToken)
            (mset (map fst (unpublished (workers s))) + mset (map (fst \<circ> snd) os)) \<and>
      length (workers s) = n \<and>
      (jobs_closed s \<longrightarrow> pending s = []) \<and>
      (Returned \<in> set (workers s) \<longrightarrow> jobs_closed s \<and> jobs s = []) \<and>
      list_all P (unpublished (workers s)) \<and> list_all P (map snd os))"

text \<open>
  With a remote side whose response depends on the request alone (\<open>f\<close>), every result
  held or published is the one \<open>f\<close> determines.
\<close>

definition answers_by :: "(request \<Rightarrow> response) \<Rightarrow> Config \<Rightarrow> string \<Rightarrow> string \<times> string option \<Rightarrow> bool" where
  "answers_by f cfg githubToken p =
     (snd p = transferRepo_result (fst p) (f (wire_request cfg githubToken (fst p))))"

section \<open>A sample run\<close>

text \<open>
  One repository, one worker, a remote side that accepts every transfer: the
  configuration, the remote side and the state in which the run ends.
\<close>

definition sample_config :: Config where
  "sample_config = \<lparr> OriginalUser = ''alice'', NewUser = ''bob'', Repositories = [''demo''] \<rparr>"

definition sample_server :: "unit \<Rightarrow> request \<Rightarrow> response \<times> unit" where
  "sample_server w rq = (Delivered 202 [], w)"

definition sample_done :: "unit pool" where
  "sample_done =
     \<lparr> pending = [], jobs = [], jobs_closed = True, workers = [Returned],
       results = [''[SUCCESS] Worker 1, Repo demo: Transfer successful''],
       world = (), calls = [wire_request sample_config ''t'' ''demo''] \<rparr>"

text \<open>
  Three environments of main: one where everything is in place, one without a token, one
  whose configuration file lists no repository.
\<close>

definition sample_env :: "unit environment" where
  "sample_env =
     \<lparr> dotenv_error = None, env_token = ''t'',
       env_readFile = (\<lambda>_. Inr ''{}''), env_unmarshal = (\<lambda>_. Inr sample_config),
       env_server = sample_server, env_world = () \<rparr>"

definition no_token_env :: "unit environment" where
  "no_token_env = sample_env\<lparr> env_token := [] \<rparr>"

definition no_repos_env :: "unit environment" where
  "no_repos_env = sample_env\<lparr> env_unmarshal := (\<lambda>_. Inr (sample_config\<lparr> Repositories := [] \<rparr>)) \<rparr>"



text \<open>
  A remote side with memory: it accepts every transfer if the first request it ever saw
  was for repository \<open>a\<close>, and answers 500 to every transfer otherwise. Its state is
  \<open>None\<close> before the first request, then whether that request was for \<open>a\<close>. With it, a
  configuration of two repositories, the state in which the run with one worker ends, and
  the state in which a run with two workers ends (the second worker posts first).
\<close>

definition order_server :: "bool option \<Rightarrow> request \<Rightarrow> (response \<times> bool option) option" where
  "order_server w rq =
     (let w' = (case w of None \<Rightarrow> Some (req_body rq ''new_name'' = Some ''a'') | Some b \<Rightarrow> Some b)
      in Some (if w' = Some True then Delivered 202 [] else Delivered 500 [], w'))"

definition two_config :: Config where
  "two_config = \<lparr> OriginalUser = ''alice'', NewUser = ''bob'', Repositories = [''a'', ''b''] \<rparr>"

definition order_done_1 :: "bool option pool" where
  "order_done_1 =
     \<lparr> pending = [], jobs = [], jobs_closed = True, workers = [Returned],
       results = [''[SUCCESS] Worker 1, Repo a: Transfer successful'',
                  ''[SUCCESS] Worker 1, Repo b: Transfer successful''],
       world = Some True,
       calls = [wire_request two_config ''t'' ''a'', wire_request two_config ''t'' ''b''] \<rparr>"

definition order_done_2 :: "bool option pool" where
  "order_done_2 =
     \<lparr> pending = [], jobs = [], jobs_closed = True, workers = [Returned, Returned],
       results = [''[FAIL] Worker 2, Repo b: repo b: Unexpected status code (HTTP 500). Response: '',
                  ''[FAIL] Worker 1, Repo a: repo a: Unexpected status code (HTTP 500). Response: ''],
       world = Some False,
       calls = [wire_request two_config ''t'' ''b'', wire_request two_config ''t'' ''a''] \<rparr>"

text \<open>
  A remote side that never answers, and the state in which the only worker has taken the
  only repository and called \<open>transferRepo\<close>.
\<close>

definition silent_server :: "unit \<Rightarrow> request \<Rightarrow> (response \<times> unit) option" where
  "silent_server w rq = None"

definition silent_stuck :: "unit pool" where
  "silent_stuck =
     \<lparr> pending = [], jobs = [], jobs_closed = True, workers = [Posting ''demo''],
       results = [], world = (), calls = [] \<rparr>"

section \<open>Facts about formatting and scanning\<close>

lemma fmt_d_401: "fmt_d 401 = ''401''"
  by code_simp

lemma fmt_d_403: "fmt_d 403 = ''403''"
  by code_simp

lemma fmt_d_404: "fmt_d 404 = ''404''"
  by code_simp

lemma fmt_d_422: "fmt_d 422 = ''422''"
  by code_simp

lemma fmt_d_500: "fmt_d 500 = ''500''"
  by code_simp

lemma transferRepo_result_delivered:
  "transferRepo_result repo (Delivered code body) =
    (if code = 202 then None
     else if code = 401 then
       Some (''repo '' @ repo @ '': Unauthorized (HTTP 401). Check GitHub token and permissions. Response: '' @ body)
     else if code = 403 then
       Some (''repo '' @ repo @ '': Forbidden (HTTP 403). API rate limits or insufficient permissions. Response: '' @ body)
     else if code = 404 then
       Some (''repo '' @ repo @ '': Repository or user not found (HTTP 404). Response: '' @ body)
     else if code = 422 then
       Some (''repo '' @ repo @ '': Unprocessable Entity (HTTP 422). Semantic errors. Response: '' @ body)
     else
       Some (''repo '' @ repo @ '': Unexpected status code (HTTP '' @ fmt_d code @ ''). Response: '' @ body))"
  unfolding transferRepo_result_def response.case
  by (simp only: fmt_d_401 fmt_d_403 fmt_d_404 fmt_d_422 append_assoc append_Cons append_Nil
        cong: if_cong split: if_splits)

lemma skipSpace_Worker:
  "skipSpace (CHR '' '' # CHR ''W'' # CHR ''o'' # CHR ''r'' # xs) = Some (CHR ''W'' # CHR ''o'' # CHR ''r'' # xs)"
  by simp

lemma sscanf_result_msg: "sscanf_success (result_msg i r err) = (err = None)"
  by (cases err)
     (simp_all add: sscanf_success_def result_msg_def skipSpace_Worker del: skipSpace.simps)

lemma foldl_tally_step:
  "foldl tally_step (a, b) ms =
     (a + length (filter sscanf_success ms), b + length (filter (\<lambda>m. \<not> sscanf_success m) ms))"
  by (induction ms arbitrary: a b) (simp_all add: tally_step_def)

lemma main_tally_filter:
  "main_tally ms = (length (filter sscanf_success ms), length (filter (\<lambda>m. \<not> sscanf_success m) ms))"
  by (simp add: main_tally_def foldl_tally_step)

lemma main_tally_sum: "fst (main_tally ms) + snd (main_tally ms) = length ms"
  by (simp add: main_tally_filter sum_length_filter_compl)

section \<open>Classification of responses\<close>

text \<open>
  Claim C1. Whenever the client delivers a response, \<open>transferRepo\<close> decides on the status
  code alone: 202 gives \<open>nil\<close>; 401, 403, 404 and 422 give the errors whose messages say
  Unauthorized, Forbidden, not found and Unprocessable Entity; every other code gives the
  error that says Unexpected status code, with the code in decimal.
\<close>

theorem transferRepo_classifies:
  "post (transfer_request transferURL newUser repoName githubToken) c = Some (Delivered code body, c') \<Longrightarrow>
   transferRepo post transferURL newUser repoName githubToken c =
    Some
     (if code = 202 then None
      else if code = 401 then
        Some (''repo '' @ repoName @ '': Unauthorized (HTTP 401). Check GitHub token and permissions. Response: '' @ body)
      else if code = 403 then
        Some (''repo '' @ repoName @ '': Forbidden (HTTP 403). API rate limits or insufficient permissions. Response: '' @ body)
      else if code = 404 then
        Some (''repo '' @ repoName @ '': Repository or user not found (HTTP 404). Response: '' @ body)
      else if code = 422 then
        Some (''repo '' @ repoName @ '': Unprocessable Entity (HTTP 422). Semantic errors. Response: '' @ body)
      else
        Some (''repo '' @ repoName @ '': Unexpected status code (HTTP '' @ fmt_d code @ ''). Response: '' @ body),
      c')"
  by (simp only: transferRepo_def transferRepo_result_delivered option.case prod.case)

theorem transferRepo_classifies_witness:
  "(\<lambda>rq c. Some (Delivered 500 ''{}'', Suc c)) (transfer_request ''u'' ''bob'' ''demo'' ''t'') (0::nat)
     = Some (Delivered 500 ''{}'', 1) \<and>
   transferRepo (\<lambda>rq c. Some (Delivered 500 ''{}'', Suc c)) ''u'' ''bob'' ''demo'' ''t'' (0::nat)
     = Some (Some ''repo demo: Unexpected status code (HTTP 500). Response: {}'', 1)"
  using transferRepo_classifies [of "\<lambda>rq c. Some (Delivered 500 ''{}'', Suc c)"
      "''u''" "''bob''" "''demo''" "''t''" "0::nat" 500 "''{}''" 1]
  by (simp add: fmt_d_500)

section \<open>What a failure carries\<close>

lemma message_parts:
  "sublist repo (a @ repo @ b @ d @ c @ body) \<and> sublist d (a @ repo @ b @ d @ c @ body)
   \<and> suffix body (a @ repo @ b @ d @ c @ body)"
proof -
  have "sublist d ((a @ repo @ b) @ d @ (c @ body))" by (rule sublist_appendI)
  moreover have "suffix body ((a @ repo @ b @ d @ c) @ body)" by (rule suffixI) simp
  ultimately show ?thesis by (simp add: sublist_appendI)
qed

lemma delivered_parts:
  assumes "transferRepo_result repo (Delivered code body) = Some msg"
  shows "sublist repo msg \<and> sublist (fmt_d code) msg \<and> suffix body msg"
proof -
  have "\<exists>a b c. msg = a @ repo @ b @ fmt_d code @ c @ body"
    using assms unfolding transferRepo_result_def response.case
    apply (simp only: option.inject option.distinct split: if_splits)
    apply (intro exI, erule sym)+
    done
  then show ?thesis using message_parts by blast
qed

lemma client_error_parts:
  assumes "transferRepo_result repo (ClientError e) = Some msg"
  shows "sublist repo msg \<and> suffix e msg"
proof -
  have m: "msg = ''client request for repo '' @ repo @ '' failed: '' @ e"
    using assms by (simp add: transferRepo_result_def)
  have "sublist repo msg" unfolding m by (rule sublist_appendI)
  moreover have "suffix e msg" unfolding m
    by (rule suffixI [of _ "''client request for repo '' @ repo @ '' failed: ''"]) simp
  ultimately show ?thesis by simp
qed

text \<open>
  Claim C7, as the code has it. Every error that \<open>transferRepo\<close> returns contains the
  repository name; when a response was received it also contains the status code in
  decimal and ends with the whole response body, whatever its length; when the client
  failed it ends with the client's error text.
\<close>

theorem transferRepo_failure_carries:
  "transferRepo post transferURL newUser repoName githubToken c = Some (Some msg, c') \<Longrightarrow>
   sublist repoName msg \<and>
   (case post (transfer_request transferURL newUser repoName githubToken) c of
      None \<Rightarrow> False
    | Some (res, c'') \<Rightarrow>
        c'' = c' \<and>
        (case res of
           ClientError e \<Rightarrow> suffix e msg
         | Delivered code body \<Rightarrow> sublist (fmt_d code) msg \<and> suffix body msg))"
proof -
  assume t: "transferRepo post transferURL newUser repoName githubToken c = Some (Some msg, c')"
  then obtain res where p: "post (transfer_request transferURL newUser repoName githubToken) c = Some (res, c')"
    and r: "transferRepo_result repoName res = Some msg"
    by (auto simp: transferRepo_def split: option.splits)
  show ?thesis
  proof (cases res)
    case (ClientError e)
    with client_error_parts [of repoName e msg] p r show ?thesis by simp
  next
    case (Delivered code body)
    with delivered_parts [of repoName code body msg] p r show ?thesis by simp
  qed
qed

theorem transferRepo_failure_carries_witness:
  "transferRepo (\<lambda>rq c. Some (Delivered 404 ''gone'', Suc c)) ''u'' ''bob'' ''demo'' ''t'' (0::nat)
     = Some (Some ''repo demo: Repository or user not found (HTTP 404). Response: gone'', 1) \<and>
   sublist ''demo'' ''repo demo: Repository or user not found (HTTP 404). Response: gone'' \<and>
   sublist (fmt_d 404) ''repo demo: Repository or user not found (HTTP 404). Response: gone'' \<and>
   suffix ''gone'' ''repo demo: Repository or user not found (HTTP 404). Response: gone''"
proof -
  have h: "transferRepo (\<lambda>rq c. Some (Delivered 404 ''gone'', Suc c)) ''u'' ''bob'' ''demo'' ''t'' (0::nat)
     = Some (Some ''repo demo: Repository or user not found (HTTP 404). Response: gone'', 1)"
    by (simp add: transferRepo_def transferRepo_result_delivered)
  from transferRepo_failure_carries [OF h] h show ?thesis by simp
qed

text \<open>
  Claim C7, as the specification words it, asks for a bounded excerpt of the body. No
  bound holds: the message grows with the body.
\<close>

theorem transferRepo_body_unbounded:
  "\<not> (\<exists>N. \<forall>body msg.
         transferRepo (\<lambda>rq c. Some (Delivered 500 body, c)) ''u'' ''bob'' ''demo'' ''t'' ()
           = Some (Some msg, ())
           \<longrightarrow> length msg \<le> N)"
proof
  assume "\<exists>N. \<forall>body msg.
         transferRepo (\<lambda>rq c. Some (Delivered 500 body, c)) ''u'' ''bob'' ''demo'' ''t'' ()
           = Some (Some msg, ())
           \<longrightarrow> length msg \<le> N"
  then obtain N where N:
    "\<And>body msg. transferRepo (\<lambda>rq c. Some (Delivered 500 body, c)) ''u'' ''bob'' ''demo'' ''t'' ()
           = Some (Some msg, ())
       \<Longrightarrow> length msg \<le> N"
    by blast
  have "transferRepo (\<lambda>rq c. Some (Delivered 500 (replicate (Suc N) CHR ''x''), c)) ''u'' ''bob'' ''demo'' ''t'' ()
      = Some (Some (''repo demo: Unexpected status code (HTTP 500). Response: '' @ replicate (Suc N) CHR ''x''), ())"
    by (simp add: transferRepo_def transferRepo_result_delivered fmt_d_500)
  from N [OF this] show False by simp
qed

section \<open>The tally\<close>

text \<open>
  Claim C9. The scan of line 197 succeeds on a message written by a worker exactly when
  that worker's \<open>transferRepo\<close> returned \<open>nil\<close>; so over any sequence of worker messages
  \<open>successCount\<close> is the number of \<open>nil\<close> results and \<open>failureCount\<close> the number of errors.
\<close>

theorem tally_matches_outcome_kind:
  "sscanf_success (result_msg workerID repoName err) = (err = None) \<and>
   main_tally (map (\<lambda>(i, r, e). result_msg i r e) os)
     = (length (filter (\<lambda>(i, r, e). e = None) os), length (filter (\<lambda>(i, r, e). e \<noteq> None) os))"
proof -
  have "filter sscanf_success (map (\<lambda>(i, r, e). result_msg i r e) os)
          = map (\<lambda>(i, r, e). result_msg i r e) (filter (\<lambda>(i, r, e). e = None) os)"
    by (induction os) (auto simp: sscanf_result_msg)
  moreover have "filter (\<lambda>m. \<not> sscanf_success m) (map (\<lambda>(i, r, e). result_msg i r e) os)
          = map (\<lambda>(i, r, e). result_msg i r e) (filter (\<lambda>(i, r, e). e \<noteq> None) os)"
    by (induction os) (auto simp: sscanf_result_msg)
  ultimately show ?thesis
    by (simp add: main_tally_filter sscanf_result_msg)
qed

section \<open>The empty-list branch of main\<close>

lemma loadConfig_nonempty: "loadConfig rf um fp = Inr config \<Longrightarrow> Repositories config \<noteq> []"
  by (auto simp: loadConfig_def split: sum.splits if_splits)

lemma main_startup_not_NoRepositories: "main_startup env \<noteq> NoRepositories"
  by (auto simp: main_startup_def dest: loadConfig_nonempty split: option.splits sum.splits)

text \<open>
  Claim C10. A configuration that \<open>loadConfig\<close> returns has a non-empty list of
  repositories, so main never takes the return of line 138.
\<close>

theorem empty_list_branch_unreachable:
  "(loadConfig readFile unmarshal filePath = Inr config \<longrightarrow> Repositories config \<noteq> []) \<and>
   main_startup env \<noteq> NoRepositories \<and> \<not> main_run env ReturnedEarly cs"
  by (auto elim: main_run.cases simp: main_startup_not_NoRepositories dest: loadConfig_nonempty)

theorem empty_list_branch_unreachable_witness:
  "loadConfig (\<lambda>_. Inr ''{}'')
      (\<lambda>_. Inr \<lparr> OriginalUser = ''alice'', NewUser = ''bob'', Repositories = [''demo''] \<rparr>) ''config.json''
     = Inr \<lparr> OriginalUser = ''alice'', NewUser = ''bob'', Repositories = [''demo''] \<rparr> \<and>
   Repositories \<lparr> OriginalUser = ''alice'', NewUser = ''bob'', Repositories = [''demo''] \<rparr> \<noteq> []"
  using empty_list_branch_unreachable
    [of "\<lambda>_. Inr ''{}''"
        "\<lambda>_. Inr \<lparr> OriginalUser = ''alice'', NewUser = ''bob'', Repositories = [''demo''] \<rparr>"
        "''config.json''" "\<lparr> OriginalUser = ''alice'', NewUser = ''bob'', Repositories = [''demo''] \<rparr>"]
  by (simp add: loadConfig_def)

section \<open>Invariants of the pool\<close>

lemma mset_concat_update:
  "i < length ws \<Longrightarrow>
   mset (concat (map f (ws[i := w]))) + mset (f (ws ! i)) = mset (concat (map f ws)) + mset (f w)"
proof (induction ws arbitrary: i)
  case Nil
  then show ?case by simp
next
  case (Cons a ws)
  show ?case
  proof (cases i)
    case 0
    then show ?thesis by simp
  next
    case (Suc j)
    with Cons.prems have "j < length ws" by simp
    from Cons.IH [OF this] Suc show ?thesis by (simp add: ac_simps)
  qed
qed

lemma in_flight_update:
  "i < length ws \<Longrightarrow>
   mset (in_flight (ws[i := w])) + mset (wjob (ws ! i)) = mset (in_flight ws) + mset (wjob w)"
  unfolding in_flight_def by (rule mset_concat_update)

lemma unpublished_update:
  "i < length ws \<Longrightarrow>
   mset (unpublished (ws[i := w])) + mset (wposted (ws ! i)) = mset (unpublished ws) + mset (wposted w)"
  unfolding unpublished_def by (rule mset_concat_update)

lemma sum_weight_update:
  "i < length ws \<Longrightarrow>
   sum_list (map wweight (ws[i := w])) + wweight (ws ! i) = sum_list (map wweight ws) + wweight w"
  by (induction ws arbitrary: i) (auto split: nat.splits)

lemma Returned_update:
  "w \<noteq> Returned \<Longrightarrow> Returned \<in> set (ws[i := w]) \<Longrightarrow> Returned \<in> set ws"
  by (metis insertE set_update_subset_insert subsetD)

lemma step_measure: "step srv cfg tok s s' \<Longrightarrow> pool_measure s' < pool_measure s"
proof (induction rule: step.induct)
  case (enqueue s r rs)
  then show ?case by (simp add: pool_measure_def)
next
  case (close_jobs s)
  then show ?case by (simp add: pool_measure_def)
next
  case (dequeue i s r rs)
  from sum_weight_update [OF dequeue(1), of "Posting r"] dequeue(2,3)
  show ?case by (simp add: pool_measure_def)
next
  case (post i s r err w' cs')
  from sum_weight_update [OF post(1), of "Publishing r err"] post(2)
  show ?case by (simp add: pool_measure_def)
next
  case (publish i s r err)
  from sum_weight_update [OF publish(1), of WaitJob] publish(2)
  show ?case by (simp add: pool_measure_def)
next
  case (worker_return i s)
  from sum_weight_update [OF worker_return(1), of Returned] worker_return(2)
  show ?case by (simp add: pool_measure_def)
qed


lemma worker_update_facts:
  assumes "i < length ws"
  shows "mset (in_flight (ws[i := w])) + mset (wjob (ws ! i)) = mset (in_flight ws) + mset (wjob w)"
    and "mset (map fst (unpublished (ws[i := w]))) + mset (map fst (wposted (ws ! i)))
           = mset (map fst (unpublished ws)) + mset (map fst (wposted w))"
    and "set (unpublished (ws[i := w])) \<subseteq> set (unpublished ws) \<union> set (wposted w)"
proof -
  show "mset (in_flight (ws[i := w])) + mset (wjob (ws ! i)) = mset (in_flight ws) + mset (wjob w)"
    by (rule in_flight_update [OF assms])
  have u: "mset (unpublished (ws[i := w])) + mset (wposted (ws ! i))
             = mset (unpublished ws) + mset (wposted w)"
    by (rule unpublished_update [OF assms])
  from arg_cong [OF u, of "image_mset fst"]
  show "mset (map fst (unpublished (ws[i := w]))) + mset (map fst (wposted (ws ! i)))
           = mset (map fst (unpublished ws)) + mset (map fst (wposted w))"
    by simp
  from arg_cong [OF u, of set_mset]
  show "set (unpublished (ws[i := w])) \<subseteq> set (unpublished ws) \<union> set (wposted w)"
    by auto
qed

lemma wposted_member: "i < length ws \<Longrightarrow> set (wposted (ws ! i)) \<subseteq> set (unpublished ws)"
  unfolding unpublished_def by (induction ws arbitrary: i) (auto split: nat.splits simp: nth_Cons)

lemma transferRepo_client:
  "transferRepo (client_post srv) (api_url (OriginalUser cfg) r) (NewUser cfg) r tok (w, cs)
     = (case srv w (wire_request cfg tok r) of
          None \<Rightarrow> None
        | Some (res, w') \<Rightarrow> Some (transferRepo_result r res, w', cs @ [wire_request cfg tok r]))"
  by (simp add: transferRepo_def client_post_def wire_request_def job_request_def
        split: option.splits)

lemma transferRepo_client_Some:
  assumes "transferRepo (client_post srv) (api_url (OriginalUser cfg) r) (NewUser cfg) r tok (w, cs)
             = Some (err, w', cs')"
  shows "\<exists>res. srv w (wire_request cfg tok r) = Some (res, w') \<and> err = transferRepo_result r res
               \<and> cs' = cs @ [wire_request cfg tok r]"
  using assms unfolding transferRepo_client by (auto split: option.splits)

lemma pool_inv_init: "pool_inv P cfg tok n (init_pool (Repositories cfg) n w0) []"
  by (simp add: pool_inv_def init_pool_def in_flight_def unpublished_def)

lemma pool_inv_step:
  assumes st: "step srv cfg tok s s'"
    and inv: "pool_inv P cfg tok n s os"
    and P: "\<And>w r res w'. srv w (wire_request cfg tok r) = Some (res, w')
               \<Longrightarrow> P (r, transferRepo_result r res)"
  shows "\<exists>ex. pool_inv P cfg tok n s' (os @ ex)"
  using st
proof (cases rule: step.cases)
  case (enqueue r rs)
  with inv have "pool_inv P cfg tok n s' (os @ [])"
    by (auto simp: pool_inv_def)
  then show ?thesis by blast
next
  case close_jobs
  with inv have "pool_inv P cfg tok n s' (os @ [])"
    by (auto simp: pool_inv_def)
  then show ?thesis by blast
next
  case (dequeue i r rs)
  note f = worker_update_facts [OF dequeue(2), of "Posting r"]
  from inv dequeue f Returned_update [of "Posting r" "workers s" i]
  have "pool_inv P cfg tok n s' (os @ [])"
    by (auto simp: pool_inv_def list_all_iff)
  then show ?thesis by blast
next
  case (post i r err w' cs')
  note f = worker_update_facts [OF post(2), of "Publishing r err"]
  from transferRepo_client_Some [OF post(4)] obtain res where
    res: "srv (world s) (wire_request cfg tok r) = Some (res, w')" "err = transferRepo_result r res"
    and cs: "cs' = calls s @ [wire_request cfg tok r]" by blast
  from P [OF res(1)] res(2) have "P (r, err)" by simp
  with inv post(1,2,3) cs f Returned_update [of "Publishing r err" "workers s" i]
  have "pool_inv P cfg tok n s' (os @ [])"
    by (auto simp: pool_inv_def list_all_iff)
  then show ?thesis by blast
next
  case (publish i r err)
  note f = worker_update_facts [OF publish(2), of WaitJob]
  from f(1) publish(3)
  have a: "mset (in_flight (workers s)) = add_mset r (mset (in_flight ((workers s)[i := WaitJob])))"
    by simp
  from f(2) publish(3)
  have b: "mset (map fst (unpublished (workers s)))
             = add_mset r (mset (map fst (unpublished ((workers s)[i := WaitJob]))))"
    by simp
  from wposted_member [OF publish(2)] publish(3) inv
  have c: "P (r, err)"
    by (auto simp: pool_inv_def list_all_iff)
  from inv publish f(3) c Returned_update [of WaitJob "workers s" i]
  have "pool_inv P cfg tok n s' (os @ [(i + 1, r, err)])"
    unfolding pool_inv_def a b
    by (auto simp: list_all_iff outcome_msg_def)
  then show ?thesis by blast
next
  case (worker_return i)
  note f = worker_update_facts [OF worker_return(2), of Returned]
  from inv worker_return f
  have "pool_inv P cfg tok n s' (os @ [])"
    by (auto simp: pool_inv_def list_all_iff)
  then show ?thesis by blast
qed

lemma reachable_inv:
  assumes r: "reachable srv cfg tok n w0 s"
    and P: "\<And>w r res w'. srv w (wire_request cfg tok r) = Some (res, w')
               \<Longrightarrow> P (r, transferRepo_result r res)"
  shows "\<exists>os. pool_inv P cfg tok n s os"
  using r unfolding reachable_def
proof (induction rule: rtranclp_induct)
  case base
  show ?case by (rule exI, rule pool_inv_init)
next
  case (step y z)
  then obtain os where inv: "pool_inv P cfg tok n y os" by blast
  have "\<exists>ex. pool_inv P cfg tok n z (os @ ex)"
    by (rule pool_inv_step [OF step(2) inv]) (rule P)
  then show ?case by blast
qed

lemma all_Returned_idle:
  "list_all (\<lambda>w. w = Returned) ws \<Longrightarrow> in_flight ws = [] \<and> unpublished ws = []"
  by (induction ws) (auto simp: in_flight_def unpublished_def)

lemma all_Returned_member: "list_all (\<lambda>w. w = Returned) ws \<Longrightarrow> 0 < length ws \<Longrightarrow> Returned \<in> set ws"
  by (cases ws) auto

lemma pool_inv_done:
  assumes inv: "pool_inv P cfg tok n s os" and d: "pool_done s" and n: "0 < n"
  shows "results s = map outcome_msg os"
    and "mset (map (fst \<circ> snd) os) = mset (Repositories cfg)"
    and "mset (calls s) = image_mset (wire_request cfg tok) (mset (Repositories cfg))"
    and "list_all P (map snd os)"
proof -
  from d have all: "list_all (\<lambda>w. w = Returned) (workers s)" and p: "pending s = []"
    by (auto simp: pool_done_def)
  from inv n have "0 < length (workers s)" by (simp add: pool_inv_def)
  with all have "Returned \<in> set (workers s)" by (rule all_Returned_member)
  with inv have j: "jobs s = []" by (simp add: pool_inv_def)
  note idle = all_Returned_idle [OF all]
  from inv show "results s = map outcome_msg os" by (simp add: pool_inv_def)
  from inv p j idle show m: "mset (map (fst \<circ> snd) os) = mset (Repositories cfg)"
    by (simp add: pool_inv_def)
  from inv idle have "mset (calls s) = image_mset (wire_request cfg tok) (mset (map (fst \<circ> snd) os))"
    by (simp add: pool_inv_def)
  with m show "mset (calls s) = image_mset (wire_request cfg tok) (mset (Repositories cfg))"
    by simp
  from inv show "list_all P (map snd os)" by (simp add: pool_inv_def)
qed

lemma pool_inv_count:
  assumes "pool_inv P cfg tok n s os"
  shows "length (pending s) + length (jobs s) + length (in_flight (workers s)) + length (results s)
           = length (Repositories cfg)"
proof -
  from assms have "size (mset (pending s) + mset (jobs s) + mset (in_flight (workers s))
                    + mset (map (fst \<circ> snd) os)) = size (mset (Repositories cfg))"
    by (simp only: pool_inv_def)
  moreover from assms have "length (results s) = length os" by (simp add: pool_inv_def)
  ultimately show ?thesis by simp
qed

lemma wjob_member: "i < length ws \<Longrightarrow> set (wjob (ws ! i)) \<subseteq> set (in_flight ws)"
  unfolding in_flight_def by (induction ws arbitrary: i) (auto split: nat.splits simp: nth_Cons)

lemma pool_progress:
  assumes inv: "pool_inv P cfg tok n s os" and nd: "\<not> pool_done s"
    and ans: "\<And>w rq. srv w rq \<noteq> None"
  shows "\<exists>s'. step srv cfg tok s s'"
proof (cases "pending s")
  case (Cons r rs)
  with pool_inv_count [OF inv] have "length (jobs s) < length (Repositories cfg)" by simp
  from step.enqueue [OF Cons this] show ?thesis by blast
next
  case Nil
  show ?thesis
  proof (cases "jobs_closed s")
    case False
    from step.close_jobs [OF Nil False] show ?thesis by blast
  next
    case True
    with Nil nd have "\<not> list_all (\<lambda>w. w = Returned) (workers s)" by (simp add: pool_done_def)
    then obtain i where i: "i < length (workers s)" and w: "workers s ! i \<noteq> Returned"
      by (auto simp: list_all_length)
    show ?thesis
    proof (cases "workers s ! i")
      case WaitJob
      show ?thesis
      proof (cases "jobs s")
        case Nil
        from step.worker_return [OF i WaitJob Nil True] show ?thesis by blast
      next
        case (Cons r rs)
        from step.dequeue [OF i WaitJob Cons] show ?thesis by blast
      qed
    next
      case (Posting r)
      from ans [of "world s" "wire_request cfg tok r"] obtain res w' where
        "srv (world s) (wire_request cfg tok r) = Some (res, w')" by auto
      then have "transferRepo (client_post srv) (api_url (OriginalUser cfg) r) (NewUser cfg) r tok
                   (world s, calls s)
                 = Some (transferRepo_result r res, w', calls s @ [wire_request cfg tok r])"
        by (simp add: transferRepo_client)
      from step.post [where srv = srv and cfg = cfg and githubToken = tok, OF i Posting this]
      show ?thesis by blast
    next
      case (Publishing r err)
      with wjob_member [OF i] have "in_flight (workers s) \<noteq> []" by auto
      then have "0 < length (in_flight (workers s))" by simp
      with pool_inv_count [OF inv] have "length (results s) < length (Repositories cfg)" by linarith
      from step.publish [OF i Publishing this] show ?thesis by blast
    next
      case Returned
      with w show ?thesis by simp
    qed
  qed
qed

lemma pool_completes:
  assumes P: "\<And>w r res w'. srv w (wire_request cfg tok r) = Some (res, w')
               \<Longrightarrow> P (r, transferRepo_result r res)"
    and ans: "\<And>w rq. srv w rq \<noteq> None"
  shows "pool_inv P cfg tok n s os \<Longrightarrow> \<exists>s'. (step srv cfg tok)\<^sup>*\<^sup>* s s' \<and> pool_done s'"
proof (induction "pool_measure s" arbitrary: s os rule: less_induct)
  case less
  show ?case
  proof (cases "pool_done s")
    case True
    then show ?thesis by blast
  next
    case False
    have "\<exists>s1. step srv cfg tok s s1"
      by (rule pool_progress [OF less.prems False]) (rule ans)
    then obtain s1 where s1: "step srv cfg tok s s1" ..
    have "\<exists>ex. pool_inv P cfg tok n s1 (os @ ex)"
      by (rule pool_inv_step [OF s1 less.prems]) (rule P)
    then obtain ex where "pool_inv P cfg tok n s1 (os @ ex)" ..
    from less.hyps [OF step_measure [OF s1] this] obtain s' where
      "(step srv cfg tok)\<^sup>*\<^sup>* s1 s'" "pool_done s'" by blast
    with s1 show ?thesis by (meson converse_rtranclp_into_rtranclp)
  qed
qed

lemma pool_reaches_done:
  assumes ans: "\<And>w rq. srv w rq \<noteq> None"
  shows "\<exists>s. reachable srv cfg tok n w0 s \<and> pool_done s"
proof -
  have "\<exists>s. (step srv cfg tok)\<^sup>*\<^sup>* (init_pool (Repositories cfg) n w0) s \<and> pool_done s"
    by (rule pool_completes [where P = "\<lambda>_. True" and os = "[]"]) (simp, rule ans, rule pool_inv_init)
  then show ?thesis unfolding reachable_def .
qed

lemma answering_answers: "answering srv w rq \<noteq> None"
  by (simp add: answering_def)

lemma reachable_done:
  assumes r: "reachable srv cfg tok n w0 s" and d: "pool_done s" and n: "0 < n"
    and P: "\<And>w r res w'. srv w (wire_request cfg tok r) = Some (res, w')
               \<Longrightarrow> P (r, transferRepo_result r res)"
  shows "\<exists>os. results s = map outcome_msg os \<and>
              mset (map (fst \<circ> snd) os) = mset (Repositories cfg) \<and>
              mset (calls s) = image_mset (wire_request cfg tok) (mset (Repositories cfg)) \<and>
              list_all P (map snd os)"
proof -
  have "\<exists>os. pool_inv P cfg tok n s os"
    by (rule reachable_inv [OF r]) (rule P)
  then obtain os where inv: "pool_inv P cfg tok n s os" ..
  from pool_inv_done [OF inv d n] show ?thesis by blast
qed

lemma reachable_done_length:
  assumes r: "reachable srv cfg tok n w0 s" and d: "pool_done s" and n: "0 < n"
  shows "length (results s) = length (Repositories cfg)"
proof -
  have "\<exists>os. results s = map outcome_msg os \<and>
              mset (map (fst \<circ> snd) os) = mset (Repositories cfg) \<and>
              mset (calls s) = image_mset (wire_request cfg tok) (mset (Repositories cfg)) \<and>
              list_all (\<lambda>_. True) (map snd os)"
    by (rule reachable_done [OF r d n]) simp
  then obtain os where os: "results s = map outcome_msg os"
      "mset (map (fst \<circ> snd) os) = mset (Repositories cfg)" by blast
  from os(2) have "size (mset (map (fst \<circ> snd) os)) = size (mset (Repositories cfg))" by simp
  with os(1) show ?thesis by simp
qed

lemma exec_step: "exec srv cfg tok a s = Some s' \<Longrightarrow> step srv cfg tok s s'"
proof (cases a)
  case Enqueue
  assume "exec srv cfg tok a s = Some s'"
  with Enqueue show ?thesis
    by (auto simp: exec_def split: list.splits if_splits intro: step.enqueue)
next
  case CloseJobs
  assume "exec srv cfg tok a s = Some s'"
  with CloseJobs show ?thesis
    by (auto simp: exec_def split: if_splits intro: step.close_jobs)
next
  case (Dequeue i)
  assume "exec srv cfg tok a s = Some s'"
  with Dequeue show ?thesis
    by (auto simp: exec_def split: list.splits if_splits intro: step.dequeue)
next
  case (Post i)
  assume "exec srv cfg tok a s = Some s'"
  with Post show ?thesis
    by (auto simp: exec_def split: wstate.splits option.splits if_splits intro: step.post)
next
  case (Publish i)
  assume "exec srv cfg tok a s = Some s'"
  with Publish show ?thesis
    using step.publish [where srv = srv and cfg = cfg and githubToken = tok and s = s and i = i]
    by (auto simp: exec_def split: wstate.splits if_splits)
next
  case (WorkerReturn i)
  assume "exec srv cfg tok a s = Some s'"
  with WorkerReturn show ?thesis
    by (auto simp: exec_def split: if_splits intro: step.worker_return)
qed

lemma run_schedule_steps:
  "run_schedule srv cfg tok as s = Some s' \<Longrightarrow> (step srv cfg tok)\<^sup>*\<^sup>* s s'"
proof (induction as arbitrary: s)
  case Nil
  then show ?case by simp
next
  case (Cons a as)
  then obtain s1 where a: "exec srv cfg tok a s = Some s1"
    and r: "run_schedule srv cfg tok as s1 = Some s'"
    by (auto split: option.splits)
  from exec_step [OF a] Cons.IH [OF r] show ?case
    by (rule converse_rtranclp_into_rtranclp)
qed

lemma run_schedule_reachable:
  "run_schedule srv cfg tok as (init_pool (Repositories cfg) n w0) = Some s
     \<Longrightarrow> reachable srv cfg tok n w0 s"
  unfolding reachable_def by (rule run_schedule_steps)

section \<open>Sample runs\<close>

lemma fmt_d_1: "fmt_d 1 = ''1''"
  by code_simp

lemma fmt_d_2: "fmt_d 2 = ''2''"
  by code_simp

lemma transferRepo_client_post:
  "transferRepo (client_post srv) url nu r tok (w, cs)
     = (case srv w (client_wire (transfer_request url nu r tok)) of
          None \<Rightarrow> None
        | Some (res, w') \<Rightarrow>
            Some (transferRepo_result r res, w', cs @ [client_wire (transfer_request url nu r tok)]))"
  by (simp add: transferRepo_def client_post_def split: option.splits)

lemma body_new_name: "req_body (client_wire (transfer_request url nu r tok)) ''new_name'' = Some r"
  by (simp add: client_wire_def transfer_request_def)

lemmas run_simps = exec_def init_pool_def transferRepo_client_post wire_request_def job_request_def
  transferRepo_result_delivered result_msg_def body_new_name

lemma sample_schedule:
  "run_schedule (answering sample_server) sample_config ''t''
     [Enqueue, CloseJobs, Dequeue 0, Post 0, Publish 0, WorkerReturn 0]
     (init_pool (Repositories sample_config) 1 ()) = Some sample_done"
  by (simp add: run_simps sample_config_def sample_done_def answering_def sample_server_def fmt_d_1)

lemma sample_run: "reachable (answering sample_server) sample_config ''t'' 1 () sample_done"
  by (rule run_schedule_reachable [OF sample_schedule])

lemma sample_done_done: "pool_done sample_done"
  by (simp add: pool_done_def sample_done_def)

lemma sample_tally: "main_tally (results sample_done) = (1, 0)"
  by (simp add: sample_done_def main_tally_def tally_step_def sscanf_success_def)


lemma order_schedule_1:
  "run_schedule order_server two_config ''t''
     [Enqueue, Enqueue, CloseJobs, Dequeue 0, Post 0, Publish 0, Dequeue 0, Post 0, Publish 0,
      WorkerReturn 0]
     (init_pool (Repositories two_config) 1 None) = Some order_done_1"
  by (simp add: run_simps two_config_def order_done_1_def order_server_def fmt_d_1)

lemma order_schedule_2:
  "run_schedule order_server two_config ''t''
     [Enqueue, Enqueue, CloseJobs, Dequeue 0, Dequeue 1, Post 1, Post 0, Publish 1, Publish 0,
      WorkerReturn 0, WorkerReturn 1]
     (init_pool (Repositories two_config) 2 None) = Some order_done_2"
  by (simp add: run_simps two_config_def order_done_2_def order_server_def
        fmt_d_1 fmt_d_2 fmt_d_500 numeral_2_eq_2)

lemma silent_schedule:
  "run_schedule silent_server sample_config ''t'' [Enqueue, CloseJobs, Dequeue 0]
     (init_pool (Repositories sample_config) 1 ()) = Some silent_stuck"
  by (simp add: exec_def init_pool_def sample_config_def silent_stuck_def)

lemma silent_no_step: "\<not> (\<exists>s'. step silent_server sample_config ''t'' silent_stuck s')"
  by (auto elim!: step.cases simp: silent_stuck_def transferRepo_client_post silent_server_def)

section \<open>One outcome per job\<close>

text \<open>
  Claim C2. With at least one worker: against a remote side that answers, the pool does
  reach the state in which main reads the results; and whatever the remote side does, in
  every such state the channel \<open>results\<close> holds exactly as many messages as there are
  repositories in the configuration, \<open>successCount + failureCount\<close> is that number, and
  the messages are those of outcomes whose repositories are, counted with repetition,
  exactly the repositories of the configuration. The summary line of main therefore has
  successes plus failures equal to its total.
\<close>

theorem every_job_one_outcome:
  "0 < n \<Longrightarrow>
   (\<exists>s. reachable (answering srv) cfg githubToken n w0 s \<and> pool_done s) \<and>
   (\<forall>s. reachable remote cfg githubToken n w0 s \<and> pool_done s \<longrightarrow>
      length (results s) = length (Repositories cfg) \<and>
      fst (main_tally (results s)) + snd (main_tally (results s)) = length (Repositories cfg) \<and>
      (\<exists>os. results s = map outcome_msg os \<and> mset (map (fst \<circ> snd) os) = mset (Repositories cfg))) \<and>
   (\<forall>env total successCount failureCount cs.
      main_run (env :: 'e environment) (Summary total successCount failureCount) cs \<longrightarrow>
      successCount + failureCount = total)"
proof (intro conjI allI impI)
  show "\<exists>s. reachable (answering srv) cfg githubToken n w0 s \<and> pool_done s"
    by (rule pool_reaches_done) (rule answering_answers)
next
  fix s
  assume n: "0 < n" and rd: "reachable remote cfg githubToken n w0 s \<and> pool_done s"
  from rd have r: "reachable remote cfg githubToken n w0 s" and d: "pool_done s" by simp_all
  show len: "length (results s) = length (Repositories cfg)"
    by (rule reachable_done_length [OF r d n])
  with main_tally_sum [of "results s"]
  show "fst (main_tally (results s)) + snd (main_tally (results s)) = length (Repositories cfg)"
    by simp
  have "\<exists>os. results s = map outcome_msg os \<and>
              mset (map (fst \<circ> snd) os) = mset (Repositories cfg) \<and>
              mset (calls s) = image_mset (wire_request cfg githubToken) (mset (Repositories cfg)) \<and>
              list_all (\<lambda>_. True) (map snd os)"
    by (rule reachable_done [OF r d n]) simp
  then show "\<exists>os. results s = map outcome_msg os \<and> mset (map (fst \<circ> snd) os) = mset (Repositories cfg)"
    by blast
next
  fix env :: "'e environment" and total successCount failureCount cs
  assume "main_run env (Summary total successCount failureCount) cs"
  then show "successCount + failureCount = total"
  proof (cases rule: main_run.cases)
    case (run_pool cfg' tok s)
    have n: "0 < numWorkers" by (simp add: numWorkers_def)
    from run_pool have r: "reachable (answering (env_server env)) cfg' tok numWorkers (env_world env) s"
      and d: "pool_done s" by simp_all
    from reachable_done_length [OF r d n] run_pool main_tally_sum [of "results s"]
    show ?thesis by simp
  qed
qed

theorem every_job_one_outcome_witness:
  "(0::nat) < 1 \<and> reachable (answering sample_server) sample_config ''t'' 1 () sample_done \<and>
   pool_done sample_done \<and>
   length (results sample_done) = length (Repositories sample_config) \<and>
   main_tally (results sample_done) = (1, 0)"
proof -
  have n: "(0::nat) < 1" by simp
  note t = every_job_one_outcome [OF n, of sample_server sample_config "''t''" "()" "answering sample_server"]
  from t sample_run sample_done_done
  have "length (results sample_done) = length (Repositories sample_config)" by blast
  with sample_run sample_done_done sample_tally show ?thesis by simp
qed

section \<open>The tally on the runs of the pool\<close>





section \<open>The pool drains\<close>

lemma answers_by_map:
  assumes "list_all (answers_by f cfg tok) (map snd os)"
  shows "map snd os = map (\<lambda>r. (r, transferRepo_result r (f (wire_request cfg tok r)))) (map (fst \<circ> snd) os)"
  using assms by (induction os) (auto simp: answers_by_def prod_eq_iff)

lemma sample_start:
  "reachable (answering sample_server) sample_config ''t'' 1 () (init_pool [''demo''] 1 ())"
  by (simp add: reachable_def sample_config_def)

text \<open>
  Claim C8, as the code has it. With at least one worker: in every state each repository
  of the configuration, counted with repetition, is in exactly one place (not yet sent,
  queued, held by one worker, or published), a worker has returned only once \<open>jobs\<close> is
  closed and empty, and each published result is \<open>transferRepo\<close>'s result on an answer of
  the remote side to that repository's request; every action lowers \<open>pool_measure\<close>, so
  no run goes on for ever; provided the remote side answers every request, a state in
  which main cannot yet read the results always allows a next action, and the final state
  is reached; in the final state every worker has returned and exactly one request per
  repository is on the wire; and provided the answer of the remote side depends on the
  request alone, the published pairs of repository and result are, counted with
  repetition, those of the configuration, whatever the number of workers.
\<close>

theorem pool_drains:
  "0 < n \<Longrightarrow>
   (\<forall>s. reachable srv cfg githubToken n w0 s \<longrightarrow>
      (Returned \<in> set (workers s) \<longrightarrow> jobs_closed s \<and> jobs s = []) \<and>
      (\<exists>os. results s = map outcome_msg os \<and>
            mset (pending s) + mset (jobs s) + mset (in_flight (workers s)) + mset (map (fst \<circ> snd) os)
              = mset (Repositories cfg) \<and>
            (\<forall>oc \<in> set os. \<exists>w res w'.
               srv w (wire_request cfg githubToken (fst (snd oc))) = Some (res, w') \<and>
               snd (snd oc) = transferRepo_result (fst (snd oc)) res))) \<and>
   (\<forall>s s'. step srv cfg githubToken s s' \<longrightarrow> pool_measure s' < pool_measure s) \<and>
   ((\<forall>w rq. srv w rq \<noteq> None) \<longrightarrow>
      (\<forall>s. reachable srv cfg githubToken n w0 s \<and> \<not> pool_done s \<longrightarrow> (\<exists>s'. step srv cfg githubToken s s')) \<and>
      (\<exists>s. reachable srv cfg githubToken n w0 s \<and> pool_done s)) \<and>
   (\<forall>s. reachable srv cfg githubToken n w0 s \<and> pool_done s \<longrightarrow>
      list_all (\<lambda>w. w = Returned) (workers s) \<and> length (workers s) = n \<and>
      mset (calls s) = image_mset (wire_request cfg githubToken) (mset (Repositories cfg)) \<and>
      ((\<forall>w rq res w'. srv w rq = Some (res, w') \<longrightarrow> res = f rq) \<longrightarrow>
        (\<exists>os. results s = map outcome_msg os \<and>
              mset (map snd os)
                = image_mset (\<lambda>r. (r, transferRepo_result r (f (wire_request cfg githubToken r))))
                    (mset (Repositories cfg)))))"
proof (intro conjI allI impI)
  fix s
  assume r: "reachable srv cfg githubToken n w0 s"
  let ?P = "\<lambda>p. \<exists>w res w'. srv w (wire_request cfg githubToken (fst p)) = Some (res, w')
                    \<and> snd p = transferRepo_result (fst p) res"
  have "\<exists>os. pool_inv ?P cfg githubToken n s os"
    by (rule reachable_inv [OF r]) auto
  then obtain os where inv: "pool_inv ?P cfg githubToken n s os" ..
  {
    assume "Returned \<in> set (workers s)"
    with inv show "jobs_closed s" by (simp add: pool_inv_def)
  }
  {
    assume "Returned \<in> set (workers s)"
    with inv show "jobs s = []" by (simp add: pool_inv_def)
  }
  from inv have "\<forall>oc \<in> set os. ?P (snd oc)"
    by (simp add: pool_inv_def list_all_iff)
  with inv
  show "\<exists>os. results s = map outcome_msg os \<and>
            mset (pending s) + mset (jobs s) + mset (in_flight (workers s)) + mset (map (fst \<circ> snd) os)
              = mset (Repositories cfg) \<and>
            (\<forall>oc \<in> set os. \<exists>w res w'.
               srv w (wire_request cfg githubToken (fst (snd oc))) = Some (res, w') \<and>
               snd (snd oc) = transferRepo_result (fst (snd oc)) res)"
    unfolding pool_inv_def by auto
next
  fix s s'
  assume "step srv cfg githubToken s s'"
  then show "pool_measure s' < pool_measure s" by (rule step_measure)
next
  fix s
  assume ans: "\<forall>w rq. srv w rq \<noteq> None"
    and "reachable srv cfg githubToken n w0 s \<and> \<not> pool_done s"
  then have r: "reachable srv cfg githubToken n w0 s" and nd: "\<not> pool_done s" by simp_all
  have "\<exists>os. pool_inv (\<lambda>_. True) cfg githubToken n s os"
    by (rule reachable_inv [OF r]) simp
  then obtain os where inv: "pool_inv (\<lambda>_. True) cfg githubToken n s os" ..
  show "\<exists>s'. step srv cfg githubToken s s'"
    by (rule pool_progress [OF inv nd]) (simp add: ans)
next
  assume ans: "\<forall>w rq. srv w rq \<noteq> None"
  show "\<exists>s. reachable srv cfg githubToken n w0 s \<and> pool_done s"
    by (rule pool_reaches_done) (simp add: ans)
next
  fix s
  assume "reachable srv cfg githubToken n w0 s \<and> pool_done s"
  then show "list_all (\<lambda>w. w = Returned) (workers s)" by (simp add: pool_done_def)
next
  fix s
  assume "reachable srv cfg githubToken n w0 s \<and> pool_done s"
  then have r: "reachable srv cfg githubToken n w0 s" by simp
  have "\<exists>os. pool_inv (\<lambda>_. True) cfg githubToken n s os"
    by (rule reachable_inv [OF r]) simp
  then show "length (workers s) = n" by (auto simp: pool_inv_def)
next
  fix s
  assume n: "0 < n" and "reachable srv cfg githubToken n w0 s \<and> pool_done s"
  then have r: "reachable srv cfg githubToken n w0 s" and d: "pool_done s" by simp_all
  have "\<exists>os. results s = map outcome_msg os \<and>
              mset (map (fst \<circ> snd) os) = mset (Repositories cfg) \<and>
              mset (calls s) = image_mset (wire_request cfg githubToken) (mset (Repositories cfg)) \<and>
              list_all (\<lambda>_. True) (map snd os)"
    by (rule reachable_done [OF r d n]) simp
  then show "mset (calls s) = image_mset (wire_request cfg githubToken) (mset (Repositories cfg))"
    by blast
next
  fix s
  assume n: "0 < n" and "reachable srv cfg githubToken n w0 s \<and> pool_done s"
    and f: "\<forall>w rq res w'. srv w rq = Some (res, w') \<longrightarrow> res = f rq"
  then have r: "reachable srv cfg githubToken n w0 s" and d: "pool_done s" by simp_all
  have "\<exists>os. results s = map outcome_msg os \<and>
              mset (map (fst \<circ> snd) os) = mset (Repositories cfg) \<and>
              mset (calls s) = image_mset (wire_request cfg githubToken) (mset (Repositories cfg)) \<and>
              list_all (answers_by f cfg githubToken) (map snd os)"
  proof (rule reachable_done [OF r d n])
    fix w r res w'
    assume "srv w (wire_request cfg githubToken r) = Some (res, w')"
    with f have "res = f (wire_request cfg githubToken r)" by blast
    then show "answers_by f cfg githubToken (r, transferRepo_result r res)"
      by (simp add: answers_by_def)
  qed
  then obtain os where os: "results s = map outcome_msg os"
    "mset (map (fst \<circ> snd) os) = mset (Repositories cfg)"
    "list_all (answers_by f cfg githubToken) (map snd os)" by blast
  let ?g = "\<lambda>r. (r, transferRepo_result r (f (wire_request cfg githubToken r)))"
  from answers_by_map [OF os(3)]
  have "mset (map snd os) = image_mset ?g (mset (map (fst \<circ> snd) os))"
    by (simp only: mset_map)
  with os(2) have "mset (map snd os) = image_mset ?g (mset (Repositories cfg))" by simp
  with os(1)
  show "\<exists>os. results s = map outcome_msg os \<and> mset (map snd os) = image_mset ?g (mset (Repositories cfg))"
    by blast
qed

theorem pool_drains_witness:
  "(0::nat) < 1 \<and>
   (\<forall>w rq. answering sample_server w rq = Some (Delivered 202 [], w)) \<and>
   reachable (answering sample_server) sample_config ''t'' 1 () (init_pool [''demo''] 1 ()) \<and>
   \<not> pool_done (init_pool [''demo''] 1 ()) \<and>
   (\<exists>s'. step (answering sample_server) sample_config ''t'' (init_pool [''demo''] 1 ()) s') \<and>
   reachable (answering sample_server) sample_config ''t'' 1 () sample_done \<and> pool_done sample_done \<and>
   workers sample_done = [Returned] \<and>
   mset (calls sample_done) = image_mset (wire_request sample_config ''t'') (mset (Repositories sample_config))"
proof -
  have n: "(0::nat) < 1" by simp
  have a: "\<forall>w rq. answering sample_server w rq = Some (Delivered 202 [], w)"
    by (simp add: answering_def sample_server_def)
  then have ans: "\<forall>w rq. answering sample_server w rq \<noteq> None" by simp
  have nd: "\<not> pool_done (init_pool [''demo''] 1 ())"
    by (simp add: pool_done_def init_pool_def)
  note t = pool_drains [OF n, of "answering sample_server" sample_config "''t''" "()" "\<lambda>_. Delivered 202 []"]
  from t sample_run sample_done_done
  have "mset (calls sample_done) = image_mset (wire_request sample_config ''t'') (mset (Repositories sample_config))"
    by blast
  moreover from t ans sample_start nd
  have "\<exists>s'. step (answering sample_server) sample_config ''t'' (init_pool [''demo''] 1 ()) s'"
    by blast
  ultimately show ?thesis
    using sample_run sample_done_done sample_start nd a
    by (simp add: sample_done_def)
qed

lemma order_tally_1: "main_tally (results order_done_1) = (2, 0)"
  by (simp add: order_done_1_def main_tally_def tally_step_def sscanf_success_def)

lemma order_tally_2: "main_tally (results order_done_2) = (0, 2)"
  by (simp add: order_done_2_def main_tally_def tally_step_def sscanf_success_def)

lemma wire_new_name: "req_body (wire_request cfg tok r) ''new_name'' = Some r"
  by (simp add: wire_request_def job_request_def body_new_name)

lemma one_worker_order:
  assumes "reachable order_server two_config ''t'' 1 None s"
  shows "(\<exists>w. workers s = [w] \<and> (\<forall>r e. w = Publishing r e \<longrightarrow> e = None)) \<and>
         list_all sscanf_success (results s) \<and>
         (world s = Some True \<or>
          (world s = None \<and> (\<forall>r e. workers s \<noteq> [Publishing r e]) \<and>
           in_flight (workers s) @ jobs s @ pending s = [''a'', ''b'']))"
  using assms unfolding reachable_def
proof (induction rule: rtranclp_induct)
  case base
  show ?case by (simp add: init_pool_def two_config_def in_flight_def)
next
  case (step y z)
  from step(3) obtain w where w: "workers y = [w]" by blast
  from step(2) show ?case
  proof (cases rule: step.cases)
    case (enqueue r rs)
    with step(3) w show ?thesis by (auto simp: in_flight_def)
  next
    case close_jobs
    with step(3) w show ?thesis by (auto simp: in_flight_def)
  next
    case (dequeue i r rs)
    with step(3) w show ?thesis by (auto simp: in_flight_def)
  next
    case (post i r err w' cs')
    from post(2) w have i: "i = 0" by simp
    from transferRepo_client_Some [OF post(4)] obtain res where
      res: "order_server (world y) (wire_request two_config ''t'' r) = Some (res, w')"
        "err = transferRepo_result r res" by blast
    from step(3) w post(3) i have "world y = Some True \<or> (world y = None \<and> r = ''a'')"
      by (auto simp: in_flight_def)
    with res have "w' = Some True \<and> err = None"
      by (auto simp: order_server_def wire_new_name transferRepo_result_delivered)
    with step(3) w post(1,2,3) i show ?thesis by auto
  next
    case (publish i r err)
    from publish(2) w have i: "i = 0" by simp
    with step(3) w publish show ?thesis
      by (auto simp: in_flight_def sscanf_result_msg)
  next
    case (worker_return i)
    with step(3) w show ?thesis by (auto simp: in_flight_def)
  qed
qed

lemma one_worker_tally:
  assumes r: "reachable order_server two_config ''t'' 1 None s" and d: "pool_done s"
  shows "main_tally (results s) = (2, 0)"
proof -
  from one_worker_order [OF r] have "list_all sscanf_success (results s)" by simp
  then have "filter sscanf_success (results s) = results s"
    and "filter (\<lambda>m. \<not> sscanf_success m) (results s) = []"
    by (simp_all add: list_all_iff)
  moreover from reachable_done_length [OF r d] have "length (results s) = 2"
    by (simp add: two_config_def)
  ultimately show ?thesis by (simp add: main_tally_filter)
qed

text \<open>
  Claim C8, as the specification words it, fails twice. Against the remote side with
  memory, the same two repositories end with two successes when one worker runs them (and
  with one worker in no other way, by the lemma above) and with two failures in a run of
  two workers. Against the remote side that never answers,
  the pool reaches a state that is not final and allows no action: the worker stays in
  \<open>transferRepo\<close> for ever.
\<close>

theorem outcomes_depend_on_workers:
  "reachable order_server two_config ''t'' 1 None order_done_1 \<and> pool_done order_done_1 \<and>
   main_tally (results order_done_1) = (2, 0) \<and>
   reachable order_server two_config ''t'' 2 None order_done_2 \<and> pool_done order_done_2 \<and>
   main_tally (results order_done_2) = (0, 2) \<and>
   reachable silent_server sample_config ''t'' 1 () silent_stuck \<and> \<not> pool_done silent_stuck \<and>
   \<not> (\<exists>s'. step silent_server sample_config ''t'' silent_stuck s')"
proof -
  have "reachable order_server two_config ''t'' 1 None order_done_1"
    by (rule run_schedule_reachable [OF order_schedule_1])
  moreover have "reachable order_server two_config ''t'' 2 None order_done_2"
    by (rule run_schedule_reachable [OF order_schedule_2])
  moreover have "reachable silent_server sample_config ''t'' 1 () silent_stuck"
    by (rule run_schedule_reachable [OF silent_schedule])
  moreover have "pool_done order_done_1" "pool_done order_done_2" "\<not> pool_done silent_stuck"
    by (simp_all add: pool_done_def order_done_1_def order_done_2_def silent_stuck_def)
  ultimately show ?thesis
    using order_tally_1 order_tally_2 silent_no_step by blast
qed

section \<open>Fatal conditions\<close>

lemma malformed_startup:
  assumes "dotenv_error env \<noteq> None \<or> env_token env = [] \<or>
     (\<forall>data cfg. env_readFile env ''config.json'' = Inr data \<and> env_unmarshal env data = Inr cfg \<longrightarrow>
        OriginalUser cfg = [] \<or> NewUser cfg = [] \<or> Repositories cfg = [])"
  shows "\<exists>m. main_startup env = Fatal m"
  using assms
  by (auto simp: main_startup_def loadConfig_def split: option.splits sum.splits)

lemma wellformed_startup:
  assumes "dotenv_error env = None \<and> env_token env \<noteq> [] \<and>
    env_readFile env ''config.json'' = Inr data \<and> env_unmarshal env data = Inr cfg \<and>
    OriginalUser cfg \<noteq> [] \<and> NewUser cfg \<noteq> [] \<and> Repositories cfg \<noteq> []"
  shows "main_startup env = Proceed cfg (env_token env)"
  using assms by (simp add: main_startup_def loadConfig_def)

text \<open>
  Claim C5. If the \<open>.env\<close> file cannot be loaded, or the token is empty, or the
  configuration file cannot be read or decoded, or it lacks \<open>originalUser\<close>, \<open>newUser\<close>
  or repositories, then main ends in \<open>log.Fatal\<close>, and no run of main posts any request.
  Conversely, with a non-empty token and a configuration that names both users and at
  least one repository, every run of main ends with the summary line, whatever the remote
  side answers, and such a run exists.
\<close>

theorem fatal_before_any_job:
  "((dotenv_error env \<noteq> None \<or> env_token env = [] \<or>
      (\<forall>data cfg. env_readFile env ''config.json'' = Inr data \<and> env_unmarshal env data = Inr cfg \<longrightarrow>
         OriginalUser cfg = [] \<or> NewUser cfg = [] \<or> Repositories cfg = [])) \<longrightarrow>
      (\<exists>m. main_run env (Aborted m) []) \<and>
      (\<forall>x cs. main_run env x cs \<longrightarrow> (\<exists>m. x = Aborted m) \<and> cs = [])) \<and>
   (dotenv_error env = None \<and> env_token env \<noteq> [] \<and>
    env_readFile env ''config.json'' = Inr data \<and> env_unmarshal env data = Inr cfg \<and>
    OriginalUser cfg \<noteq> [] \<and> NewUser cfg \<noteq> [] \<and> Repositories cfg \<noteq> [] \<longrightarrow>
      (\<exists>a b cs. main_run env (Summary (length (Repositories cfg)) a b) cs) \<and>
      (\<forall>x cs. main_run env x cs \<longrightarrow> (\<exists>a b. x = Summary (length (Repositories cfg)) a b)))"
proof (intro conjI impI allI)
  assume "dotenv_error env \<noteq> None \<or> env_token env = [] \<or>
      (\<forall>data cfg. env_readFile env ''config.json'' = Inr data \<and> env_unmarshal env data = Inr cfg \<longrightarrow>
         OriginalUser cfg = [] \<or> NewUser cfg = [] \<or> Repositories cfg = [])"
  from malformed_startup [OF this] obtain m where "main_startup env = Fatal m" ..
  then show "\<exists>m. main_run env (Aborted m) []" by (blast intro: main_run.run_fatal)
next
  fix x cs
  assume "dotenv_error env \<noteq> None \<or> env_token env = [] \<or>
      (\<forall>data cfg. env_readFile env ''config.json'' = Inr data \<and> env_unmarshal env data = Inr cfg \<longrightarrow>
         OriginalUser cfg = [] \<or> NewUser cfg = [] \<or> Repositories cfg = [])"
  from malformed_startup [OF this] obtain m where m: "main_startup env = Fatal m" ..
  assume "main_run env x cs"
  then have both: "(\<exists>m. x = Aborted m) \<and> cs = []"
    using m by (cases rule: main_run.cases) simp_all
  from both show "\<exists>m. x = Aborted m" ..
  from both show "cs = []" ..
next
  assume "dotenv_error env = None \<and> env_token env \<noteq> [] \<and>
    env_readFile env ''config.json'' = Inr data \<and> env_unmarshal env data = Inr cfg \<and>
    OriginalUser cfg \<noteq> [] \<and> NewUser cfg \<noteq> [] \<and> Repositories cfg \<noteq> []"
  then have p: "main_startup env = Proceed cfg (env_token env)" by (rule wellformed_startup)
  have "\<exists>s. reachable (answering (env_server env)) cfg (env_token env) numWorkers (env_world env) s
              \<and> pool_done s"
    by (rule pool_reaches_done) (rule answering_answers)
  then obtain s where
    "reachable (answering (env_server env)) cfg (env_token env) numWorkers (env_world env) s"
    "pool_done s" by blast
  from main_run.run_pool [OF p this]
  show "\<exists>a b cs. main_run env (Summary (length (Repositories cfg)) a b) cs" by blast
next
  fix x cs
  assume "dotenv_error env = None \<and> env_token env \<noteq> [] \<and>
    env_readFile env ''config.json'' = Inr data \<and> env_unmarshal env data = Inr cfg \<and>
    OriginalUser cfg \<noteq> [] \<and> NewUser cfg \<noteq> [] \<and> Repositories cfg \<noteq> []"
  then have p: "main_startup env = Proceed cfg (env_token env)" by (rule wellformed_startup)
  assume "main_run env x cs"
  then show "\<exists>a b. x = Summary (length (Repositories cfg)) a b"
    using p by (cases rule: main_run.cases) simp_all
qed

theorem fatal_before_any_job_witness:
  "env_token no_token_env = [] \<and>
   (\<exists>m. main_run no_token_env (Aborted m) []) \<and>
   env_readFile no_repos_env ''config.json'' = Inr ''{}'' \<and>
   env_unmarshal no_repos_env ''{}'' = Inr (sample_config\<lparr> Repositories := [] \<rparr>) \<and>
   (\<exists>m. main_run no_repos_env (Aborted m) []) \<and>
   dotenv_error sample_env = None \<and> env_token sample_env = ''t'' \<and>
   env_readFile sample_env ''config.json'' = Inr ''{}'' \<and>
   env_unmarshal sample_env ''{}'' = Inr sample_config \<and>
   Repositories sample_config = [''demo''] \<and>
   (\<exists>a b cs. main_run sample_env (Summary 1 a b) cs)"
proof -
  have a: "env_token no_token_env = []"
    by (simp add: no_token_env_def)
  have b1: "env_readFile no_repos_env ''config.json'' = Inr ''{}''"
    and b2: "env_unmarshal no_repos_env ''{}'' = Inr (sample_config\<lparr> Repositories := [] \<rparr>)"
    by (simp_all add: no_repos_env_def sample_env_def)
  have b: "\<forall>data cfg. env_readFile no_repos_env ''config.json'' = Inr data \<and> env_unmarshal no_repos_env data = Inr cfg \<longrightarrow>
         OriginalUser cfg = [] \<or> NewUser cfg = [] \<or> Repositories cfg = []"
    by (auto simp: no_repos_env_def sample_env_def)
  have c: "dotenv_error sample_env = None" "env_token sample_env = ''t''"
    "env_readFile sample_env ''config.json'' = Inr ''{}''"
    "env_unmarshal sample_env ''{}'' = Inr sample_config"
    by (simp_all add: sample_env_def)
  have d: "OriginalUser sample_config \<noteq> []" "NewUser sample_config \<noteq> []"
    "Repositories sample_config = [''demo'']"
    by (simp_all add: sample_config_def)
  from fatal_before_any_job [of no_token_env] a
  have 1: "\<exists>m. main_run no_token_env (Aborted m) []" by blast
  from fatal_before_any_job [of no_repos_env] b
  have 2: "\<exists>m. main_run no_repos_env (Aborted m) []" by blast
  from fatal_before_any_job [of sample_env "''{}''" sample_config] c d
  have "\<exists>a b cs. main_run sample_env (Summary (length (Repositories sample_config)) a b) cs" by simp
  then have 3: "\<exists>a b cs. main_run sample_env (Summary 1 a b) cs"
    by (simp add: d)
  from a b1 b2 c d 1 2 3 show ?thesis by blast
qed

section \<open>The request of a job\<close>

lemma wire_request_fields:
  "wire_request cfg githubToken r
     = \<lparr> req_method = ''POST'',
         req_url = ''https://api.github.com/repos/'' @ OriginalUser cfg @ ''/'' @ r @ ''/transfer'',
         req_body = [''new_owner'' \<mapsto> NewUser cfg, ''new_name'' \<mapsto> r],
         req_headers = [''Accept'' \<mapsto> ''application/vnd.github+json'',
                        ''Authorization'' \<mapsto> ''Bearer '' @ githubToken,
                        ''X-GitHub-Api-Version'' \<mapsto> ''2022-11-28'',
                        ''Content-Type'' \<mapsto> ''application/json''] \<rparr>"
  by (simp add: wire_request_def client_wire_def job_request_def transfer_request_def api_url_def)

text \<open>
  Claim C6. A call of \<open>transferRepo\<close> for repository \<open>r\<close> that returns has put exactly one
  request on the wire: a POST to \<open>https://api.github.com/repos/<originalUser>/<r>/transfer\<close>
  whose body maps \<open>new_owner\<close> to the new user and \<open>new_name\<close> to \<open>r\<close>, with the headers
  \<open>Accept\<close>, \<open>Authorization\<close> (\<open>Bearer\<close> and the token), \<open>X-GitHub-Api-Version\<close> and
  \<open>Content-Type\<close>. When the pool has drained, the requests on the wire are exactly one
  such request per repository of the configuration.
\<close>

theorem one_post_per_job:
  "(transferRepo (client_post srv) (api_url (OriginalUser cfg) r) (NewUser cfg) r githubToken (w, cs)
      = Some (err, w', cs') \<longrightarrow>
    cs' = cs @
      [\<lparr> req_method = ''POST'',
         req_url = ''https://api.github.com/repos/'' @ OriginalUser cfg @ ''/'' @ r @ ''/transfer'',
         req_body = [''new_owner'' \<mapsto> NewUser cfg, ''new_name'' \<mapsto> r],
         req_headers = [''Accept'' \<mapsto> ''application/vnd.github+json'',
                        ''Authorization'' \<mapsto> ''Bearer '' @ githubToken,
                        ''X-GitHub-Api-Version'' \<mapsto> ''2022-11-28'',
                        ''Content-Type'' \<mapsto> ''application/json''] \<rparr>]) \<and>
   (0 < n \<and> reachable srv cfg githubToken n w0 s \<and> pool_done s \<longrightarrow>
      mset (calls s)
        = image_mset
            (\<lambda>r. \<lparr> req_method = ''POST'',
                    req_url = ''https://api.github.com/repos/'' @ OriginalUser cfg @ ''/'' @ r @ ''/transfer'',
                    req_body = [''new_owner'' \<mapsto> NewUser cfg, ''new_name'' \<mapsto> r],
                    req_headers = [''Accept'' \<mapsto> ''application/vnd.github+json'',
                                   ''Authorization'' \<mapsto> ''Bearer '' @ githubToken,
                                   ''X-GitHub-Api-Version'' \<mapsto> ''2022-11-28'',
                                   ''Content-Type'' \<mapsto> ''application/json''] \<rparr>)
            (mset (Repositories cfg)))"
proof (intro conjI impI)
  assume "transferRepo (client_post srv) (api_url (OriginalUser cfg) r) (NewUser cfg) r githubToken (w, cs)
      = Some (err, w', cs')"
  from transferRepo_client_Some [OF this]
  have "cs' = cs @ [wire_request cfg githubToken r]" by blast
  then show "cs' = cs @
      [\<lparr> req_method = ''POST'',
         req_url = ''https://api.github.com/repos/'' @ OriginalUser cfg @ ''/'' @ r @ ''/transfer'',
         req_body = [''new_owner'' \<mapsto> NewUser cfg, ''new_name'' \<mapsto> r],
         req_headers = [''Accept'' \<mapsto> ''application/vnd.github+json'',
                        ''Authorization'' \<mapsto> ''Bearer '' @ githubToken,
                        ''X-GitHub-Api-Version'' \<mapsto> ''2022-11-28'',
                        ''Content-Type'' \<mapsto> ''application/json''] \<rparr>]"
    by (simp only: wire_request_fields)
next
  assume "0 < n \<and> reachable srv cfg githubToken n w0 s \<and> pool_done s"
  then have n: "0 < n" and r: "reachable srv cfg githubToken n w0 s" and d: "pool_done s" by simp_all
  have "\<exists>os. results s = map outcome_msg os \<and>
              mset (map (fst \<circ> snd) os) = mset (Repositories cfg) \<and>
              mset (calls s) = image_mset (wire_request cfg githubToken) (mset (Repositories cfg)) \<and>
              list_all (\<lambda>_. True) (map snd os)"
    by (rule reachable_done [OF r d n]) simp
  then have m: "mset (calls s) = image_mset (wire_request cfg githubToken) (mset (Repositories cfg))"
    by blast
  have e: "wire_request cfg githubToken
        = (\<lambda>r. \<lparr> req_method = ''POST'',
                    req_url = ''https://api.github.com/repos/'' @ OriginalUser cfg @ ''/'' @ r @ ''/transfer'',
                    req_body = [''new_owner'' \<mapsto> NewUser cfg, ''new_name'' \<mapsto> r],
                    req_headers = [''Accept'' \<mapsto> ''application/vnd.github+json'',
                                   ''Authorization'' \<mapsto> ''Bearer '' @ githubToken,
                                   ''X-GitHub-Api-Version'' \<mapsto> ''2022-11-28'',
                                   ''Content-Type'' \<mapsto> ''application/json''] \<rparr>)"
    by (rule ext) (rule wire_request_fields)
  from m show "mset (calls s)
        = image_mset
            (\<lambda>r. \<lparr> req_method = ''POST'',
                    req_url = ''https://api.github.com/repos/'' @ OriginalUser cfg @ ''/'' @ r @ ''/transfer'',
                    req_body = [''new_owner'' \<mapsto> NewUser cfg, ''new_name'' \<mapsto> r],
                    req_headers = [''Accept'' \<mapsto> ''application/vnd.github+json'',
                                   ''Authorization'' \<mapsto> ''Bearer '' @ githubToken,
                                   ''X-GitHub-Api-Version'' \<mapsto> ''2022-11-28'',
                                   ''Content-Type'' \<mapsto> ''application/json''] \<rparr>)
            (mset (Repositories cfg))"
    by (simp only: e)
qed

theorem one_post_per_job_witness:
  "transferRepo (client_post (answering sample_server)) (api_url ''alice'' ''demo'') ''bob'' ''demo'' ''t''
     ((), []) = Some (None, (), [wire_request sample_config ''t'' ''demo'']) \<and>
   (0::nat) < 1 \<and> reachable (answering sample_server) sample_config ''t'' 1 () sample_done \<and>
   pool_done sample_done \<and>
   calls sample_done = [wire_request sample_config ''t'' ''demo''] \<and>
   req_url (wire_request sample_config ''t'' ''demo'') = ''https://api.github.com/repos/alice/demo/transfer'' \<and>
   req_headers (wire_request sample_config ''t'' ''demo'') ''Content-Type'' = Some ''application/json''"
proof -
  have c: "transferRepo (client_post (answering sample_server))
             (api_url (OriginalUser sample_config) ''demo'') (NewUser sample_config) ''demo'' ''t'' ((), [])
           = Some (None, (), [wire_request sample_config ''t'' ''demo''])"
    by (simp add: transferRepo_client answering_def sample_server_def transferRepo_result_delivered)
  note t = one_post_per_job [of "answering sample_server" sample_config "''demo''" "''t''" "()" "[]"
      None "()" "[wire_request sample_config ''t'' ''demo'']" 1 "()" sample_done]
  from t c have 1: "[wire_request sample_config ''t'' ''demo''] = [] @
      [\<lparr> req_method = ''POST'',
         req_url = ''https://api.github.com/repos/'' @ OriginalUser sample_config @ ''/'' @ ''demo'' @ ''/transfer'',
         req_body = [''new_owner'' \<mapsto> NewUser sample_config, ''new_name'' \<mapsto> ''demo''],
         req_headers = [''Accept'' \<mapsto> ''application/vnd.github+json'',
                        ''Authorization'' \<mapsto> ''Bearer '' @ ''t'',
                        ''X-GitHub-Api-Version'' \<mapsto> ''2022-11-28'',
                        ''Content-Type'' \<mapsto> ''application/json''] \<rparr>]"
    by blast
  then have 2: "req_url (wire_request sample_config ''t'' ''demo'') = ''https://api.github.com/repos/alice/demo/transfer''"
    and 3: "req_headers (wire_request sample_config ''t'' ''demo'') ''Content-Type'' = Some ''application/json''"
    by (simp_all add: sample_config_def)
  from c have c': "transferRepo (client_post (answering sample_server)) (api_url ''alice'' ''demo'') ''bob'' ''demo'' ''t''
     ((), []) = Some (None, (), [wire_request sample_config ''t'' ''demo''])"
    by (simp add: sample_config_def)
  from c' 2 3 sample_run sample_done_done show ?thesis
    by (simp add: sample_done_def)
qed

end
